theory Spec2Isabelle
  imports Complex_Main "HOL-Library.Multiset"
begin

section \<open>Errors\<close>

text \<open>
  The exceptions that the Python source (\<^verbatim>\<open>code/drive.py\<close>) and the numpy
  primitives it calls can raise. A computation that may raise returns
  \<open>error + 'a\<close>, with \<open>Inl\<close> carrying the exception.
\<close>

datatype error =
  KeyError | IndexError | ValueError | AxisError | TypeError
  | AssertionError | ZeroDivisionError

primrec bind_err :: "error + 'a \<Rightarrow> ('a \<Rightarrow> error + 'b) \<Rightarrow> error + 'b" where
  "bind_err (Inl e) f = Inl e"
| "bind_err (Inr x) f = f x"

section \<open>Arrays\<close>

text \<open>
  A numpy array is its shape together with the element at every index (one position
  per axis). Only the elements at indices inside the shape belong to the array. The
  elements are real numbers, standing for the finite values of the array's number
  format; infinities and NaN are not modelled. Copying, comparing and taking
  minimum or maximum of such values is exact. A floating-point product or sum is
  the exact result rounded into the format: where the source multiplies or adds,
  the model applies the rounding \<open>fl\<close> of the format, which it takes as a
  parameter.
\<close>

record 'a ndarray =
  shape :: "nat list"
  elem :: "nat list \<Rightarrow> 'a"

definition ndim :: "'a ndarray \<Rightarrow> nat" where
  "ndim a = length (shape a)"

text \<open>\<^verbatim>\<open>a.shape[i]\<close> for a literal \<open>i \<ge> 0\<close>: the shape tuple is indexed.\<close>

definition shape_at :: "'a ndarray \<Rightarrow> nat \<Rightarrow> error + nat" where
  "shape_at a i = (if i < length (shape a) then Inr (shape a ! i) else Inl IndexError)"

text \<open>\<^verbatim>\<open>(w, h, d) = image.shape\<close>: unpacking needs exactly three values.\<close>

definition unpack3 :: "nat list \<Rightarrow> error + nat \<times> nat \<times> nat" where
  "unpack3 sh = (case sh of [a, b, c] \<Rightarrow> Inr (a, b, c) | _ \<Rightarrow> Inl ValueError)"

text \<open>An elementwise operation (comparison with a scalar, a type conversion, clipping).\<close>

definition amap :: "('a \<Rightarrow> 'b) \<Rightarrow> 'a ndarray \<Rightarrow> 'b ndarray" where
  "amap f a = \<lparr>shape = shape a, elem = (\<lambda>idx. f (elem a idx))\<rparr>"

subsection \<open>\<^verbatim>\<open>np.pad(a, pairs, mode='constant', constant_values=0)\<close>\<close>

text \<open>
  The source passes a list of two or of three (before, after) pairs. numpy broadcasts
  the list to one pair per axis, which for a list of \<open>n \<ge> 2\<close> pairs is possible only
  when the array has exactly \<open>n\<close> axes, and raises \<^verbatim>\<open>ValueError\<close> otherwise, as it
  does for a negative width.
\<close>

fun pad_shape :: "(int \<times> int) list \<Rightarrow> nat list \<Rightarrow> nat list" where
  "pad_shape (p # ps) (n # ns) = (nat (fst p) + n + nat (snd p)) # pad_shape ps ns"
| "pad_shape ps ns = ns"

text \<open>The index in the original array of an index of the padded one, if it has one.\<close>

fun pad_source :: "(int \<times> int) list \<Rightarrow> nat list \<Rightarrow> nat list \<Rightarrow> nat list option" where
  "pad_source (p # ps) (n # ns) (i # idx) =
     (if nat (fst p) \<le> i \<and> i < nat (fst p) + n
      then map_option ((#) (i - nat (fst p))) (pad_source ps ns idx)
      else None)"
| "pad_source ps ns idx = Some idx"

definition np_pad :: "'a::zero ndarray \<Rightarrow> (int \<times> int) list \<Rightarrow> error + 'a ndarray" where
  "np_pad a pairs =
     (if list_ex (\<lambda>p. fst p < 0 \<or> snd p < 0) pairs then Inl ValueError
      else if length pairs \<noteq> ndim a then Inl ValueError
      else Inr \<lparr>shape = pad_shape pairs (shape a),
                elem = (\<lambda>idx. case pad_source pairs (shape a) idx of
                                None \<Rightarrow> 0
                              | Some src \<Rightarrow> elem a src)\<rparr>)"

subsection \<open>Basic indexing \<^verbatim>\<open>a[i, lo:hi, :]\<close>\<close>

text \<open>
  An index expression is an integer or a slice of step one with optional bounds. A
  negative integer or bound counts from the end; a slice bound is clamped into the
  axis, an integer outside the axis raises \<^verbatim>\<open>IndexError\<close>, as do more index
  expressions than the array has axes. Axes without an index expression are kept
  whole.
\<close>

datatype index = At int | Slice "int option" "int option"

definition slice_norm :: "nat \<Rightarrow> int \<Rightarrow> nat" where
  "slice_norm n x = (if x < 0 then nat (max (x + int n) 0) else min (nat x) n)"

definition slice_start :: "nat \<Rightarrow> int option \<Rightarrow> nat" where
  "slice_start n lo = (case lo of None \<Rightarrow> 0 | Some x \<Rightarrow> slice_norm n x)"

definition slice_stop :: "nat \<Rightarrow> int option \<Rightarrow> nat" where
  "slice_stop n hi = (case hi of None \<Rightarrow> n | Some x \<Rightarrow> slice_norm n x)"

definition slice_len :: "nat \<Rightarrow> int option \<Rightarrow> int option \<Rightarrow> nat" where
  "slice_len n lo hi = slice_stop n hi - slice_start n lo"

text \<open>
  The shape of the result and, for each of its indices, the index in the array that
  is read.
\<close>

fun basic_index ::
  "index list \<Rightarrow> nat list \<Rightarrow> error + (nat list \<times> (nat list \<Rightarrow> nat list))" where
  "basic_index [] ns = Inr (ns, (\<lambda>idx. idx))"
| "basic_index (ix # ixs) [] = Inl IndexError"
| "basic_index (At i # ixs) (n # ns) =
     (if i < - int n \<or> int n \<le> i then Inl IndexError
      else bind_err (basic_index ixs ns)
             (\<lambda>(sh, f). Inr (sh, (\<lambda>idx. nat (if i < 0 then i + int n else i) # f idx))))"
| "basic_index (Slice lo hi # ixs) (n # ns) =
     bind_err (basic_index ixs ns)
       (\<lambda>(sh, f). Inr (slice_len n lo hi # sh,
          (\<lambda>idx. case idx of [] \<Rightarrow> [] | j # rest \<Rightarrow> (slice_start n lo + j) # f rest)))"

definition getitem :: "'a ndarray \<Rightarrow> index list \<Rightarrow> error + 'a ndarray" where
  "getitem a ixs =
     bind_err (basic_index ixs (shape a))
       (\<lambda>(sh, f). Inr \<lparr>shape = sh, elem = (\<lambda>idx. elem a (f idx))\<rparr>)"

subsection \<open>Broadcasting\<close>


definition bindex :: "nat list \<Rightarrow> nat list \<Rightarrow> nat list" where
  "bindex sh idx =
     map2 (\<lambda>n i. if n = 1 then 0 else i) sh (drop (length idx - length sh) idx)"


text \<open>
  Assignment \<^verbatim>\<open>a[i, :, :, :] = v\<close>: the value is broadcast to the shape of the
  target \<^verbatim>\<open>a[i]\<close>. Leading axes of extent one of the value are dropped while it has
  more axes than the target; after that every axis of the value must have the
  target's extent or extent one, else numpy raises \<^verbatim>\<open>ValueError\<close>. The source
  assigns inside \<^verbatim>\<open>range(num_classes)\<close>, so \<open>i\<close> is an index of the first axis.
\<close>

fun strip_ones :: "nat \<Rightarrow> nat list \<Rightarrow> nat list" where
  "strip_ones k [] = []"
| "strip_ones k (n # ns) = (if k < length (n # ns) \<and> n = 1 then strip_ones k ns else n # ns)"

fun broadcastable :: "nat list \<Rightarrow> nat list \<Rightarrow> bool" where
  "broadcastable [] ds = True"
| "broadcastable (s # ss) [] = False"
| "broadcastable (s # ss) (d # ds) = ((s = d \<or> s = 1) \<and> broadcastable ss ds)"

definition setitem_first :: "'a ndarray \<Rightarrow> nat \<Rightarrow> 'a ndarray \<Rightarrow> error + 'a ndarray" where
  "setitem_first a i v =
     (let target = tl (shape a); src = strip_ones (length target) (shape v)
      in if \<not> broadcastable (rev src) (rev target) then Inl ValueError
         else Inr (a\<lparr>elem := (\<lambda>idx. case idx of
                       [] \<Rightarrow> elem a idx
                     | c # rest \<Rightarrow>
                         if c = i
                         then elem v (replicate (ndim v - length src) 0 @ bindex src rest)
                         else elem a idx)\<rparr>))"

subsection \<open>\<^verbatim>\<open>np.rot90(m, axes=(1, 2))\<close> and \<^verbatim>\<open>np.flip(m, axis)\<close>\<close>

text \<open>
  One rotation by 90 degrees in the plane of axes 1 and 2 is the transpose of these
  axes after a flip along axis 2: \<open>out[i, a, b] = m[i, b, n2 - 1 - a]\<close>, with \<open>n2\<close> the
  extent of axis 2 of \<open>m\<close>. numpy raises \<^verbatim>\<open>ValueError\<close> when the array has no axis 2.
\<close>

definition rot90_12 :: "'a ndarray \<Rightarrow> 'a ndarray" where
  "rot90_12 m =
     \<lparr>shape = (case shape m of d # n1 # n2 # rest \<Rightarrow> d # n2 # n1 # rest | sh \<Rightarrow> sh),
      elem = (\<lambda>idx. case idx of
                i # a # b # rest \<Rightarrow> elem m (i # b # (shape m ! 2 - 1 - a) # rest)
              | _ \<Rightarrow> elem m idx)\<rparr>"

definition np_rot90 :: "'a ndarray \<Rightarrow> error + 'a ndarray" where
  "np_rot90 m = (if ndim m < 3 then Inl ValueError else Inr (rot90_12 m))"

text \<open>
  \<^verbatim>\<open>np.flip(m, axis)\<close> reverses one axis and raises \<^verbatim>\<open>AxisError\<close> when the array
  does not have it.
\<close>

definition flip_axis :: "nat \<Rightarrow> 'a ndarray \<Rightarrow> 'a ndarray" where
  "flip_axis ax m =
     m\<lparr>elem := (\<lambda>idx. if ax < length idx
                       then elem m (idx[ax := shape m ! ax - 1 - idx ! ax])
                       else elem m idx)\<rparr>"

definition np_flip :: "'a ndarray \<Rightarrow> nat \<Rightarrow> error + 'a ndarray" where
  "np_flip m axis = (if ndim m \<le> axis then Inl AxisError else Inr (flip_axis axis m))"

subsection \<open>Random numbers\<close>

text \<open>
  \<^verbatim>\<open>np.random.randint(low, high)\<close> raises \<^verbatim>\<open>ValueError\<close> when \<open>high \<le> low\<close> and
  otherwise returns an integer of the half-open range from \<open>low\<close> to \<open>high\<close>. The state
  of the generator is represented by an arbitrary integer \<open>u\<close> that is reduced into
  the range, so that every \<open>u\<close> gives a value of the range and every value of the range
  is given by some \<open>u\<close>.
\<close>

definition randint :: "int \<Rightarrow> int \<Rightarrow> int \<Rightarrow> error + int" where
  "randint low high u =
     (if high \<le> low then Inl ValueError else Inr (low + u mod (high - low)))"



subsection \<open>Samples\<close>

text \<open>A sample is a dictionary from key names to arrays.\<close>

type_synonym sample = "string \<rightharpoonup> real ndarray"

definition dict_get :: "sample \<Rightarrow> string \<Rightarrow> error + real ndarray" where
  "dict_get d k = (case d k of None \<Rightarrow> Inl KeyError | Some v \<Rightarrow> Inr v)"

section \<open>Drive dataset\<close>

text \<open>
  \<^verbatim>\<open>
  def __len__(self):
      return len(self.image_list)

  def __getitem__(self, idx):
      sample = self.image_list[idx]
      sample = {
          'image': self.image_list[idx, :, :, :],
          'label': self.label_list[idx, 0:1, :, :]}
      if self.transform:
          sample = self.transform(sample)
      return sample
  \<close>
  The three arrays come from \<^verbatim>\<open>load_dataset\<close>, which is not part of the
  repository's sources; they are fields of the dataset. A transform is a function on
  samples that may raise. \<open>__getitem__\<close> returns its result together with the
  dataset as it leaves it.
\<close>

record drive =
  transform :: "(sample \<Rightarrow> error + sample) option"
  image_list :: "real ndarray"
  label_list :: "real ndarray"
  mask_list :: "real ndarray"

definition Drive_len :: "drive \<Rightarrow> error + nat" where
  "Drive_len self =
     (case shape (image_list self) of [] \<Rightarrow> Inl TypeError | n # ns \<Rightarrow> Inr n)"

definition Drive_getitem :: "drive \<Rightarrow> int \<Rightarrow> (error + sample) \<times> drive" where
  "Drive_getitem self idx =
     (bind_err (getitem (image_list self) [At idx]) (\<lambda>sample.
      bind_err (getitem (image_list self)
                  [At idx, Slice None None, Slice None None, Slice None None]) (\<lambda>img.
      bind_err (getitem (label_list self)
                  [At idx, Slice (Some 0) (Some 1), Slice None None, Slice None None]) (\<lambda>lbl.
      let sample = [''image'' \<mapsto> img, ''label'' \<mapsto> lbl]
      in case transform self of
           None \<Rightarrow> Inr sample
         | Some t \<Rightarrow> t sample))),
      self)"

section \<open>Transforms\<close>

text \<open>
  In the definitions \<open>img\<close> and \<open>lbl\<close> are the source's variables \<^verbatim>\<open>image\<close> and
  \<^verbatim>\<open>label\<close>.
\<close>

subsection \<open>CenterCrop\<close>

text \<open>
  \<^verbatim>\<open>round(k / 2.)\<close> for an integer \<open>k\<close>: Python rounds a half to the even
  neighbour.
\<close>

definition round_half :: "int \<Rightarrow> int" where
  "round_half k =
     (if even k then k div 2 else if even (k div 2) then k div 2 else k div 2 + 1)"

text \<open>
  \<^verbatim>\<open>
  def __call__(self, sample):
      image, label = sample['image'], sample['label']
      # pad the sample if necessary
      if label.shape[0] <= self.output_size[0] or label.shape[1] <= self.output_size[1]:
          pw = max((self.output_size[0] - label.shape[0]) // 2 + 3, 0)
          ph = max((self.output_size[1] - label.shape[1]) // 2 + 3, 0)
          image = np.pad(image, [(pw, pw), (ph, ph)], mode='constant', constant_values=0)
          label = np.pad(label, [(pw, pw), (ph, ph)], mode='constant', constant_values=0)
      (w, h, d) = image.shape
      w1 = int(round((w - self.output_size[0]) / 2.))
      h1 = int(round((h - self.output_size[1]) / 2.))
      label = label[w1:w1 + self.output_size[0], h1:h1 + self.output_size[1]]
      image = image[w1:w1 + self.output_size[0], h1:h1 + self.output_size[1]]
      return {'image': image, 'label': label}
  \<close>
  \<^verbatim>\<open>or\<close> evaluates its second operand only when the first is false.
\<close>

definition CenterCrop :: "int \<times> int \<Rightarrow> sample \<Rightarrow> error + sample" where
  "CenterCrop output_size sample =
     (case output_size of (o0, o1) \<Rightarrow>
      bind_err (dict_get sample ''image'') (\<lambda>img.
      bind_err (dict_get sample ''label'') (\<lambda>lbl.
      bind_err (shape_at lbl 0) (\<lambda>l0.
      bind_err (if int l0 \<le> o0 then Inr True
                else bind_err (shape_at lbl 1) (\<lambda>l1. Inr (int l1 \<le> o1))) (\<lambda>need_pad.
      bind_err (if need_pad
                then bind_err (shape_at lbl 1) (\<lambda>l1.
                     let pw = max ((o0 - int l0) div 2 + 3) 0;
                         ph = max ((o1 - int l1) div 2 + 3) 0
                     in bind_err (np_pad img [(pw, pw), (ph, ph)]) (\<lambda>img.
                        bind_err (np_pad lbl [(pw, pw), (ph, ph)]) (\<lambda>lbl.
                        Inr (img, lbl))))
                else Inr (img, lbl)) (\<lambda>(img, lbl).
      bind_err (unpack3 (shape img)) (\<lambda>(w, h, d).
      let w1 = round_half (int w - o0);
          h1 = round_half (int h - o1)
      in bind_err (getitem lbl [Slice (Some w1) (Some (w1 + o0)),
                                 Slice (Some h1) (Some (h1 + o1))]) (\<lambda>lbl.
         bind_err (getitem img [Slice (Some w1) (Some (w1 + o0)),
                                 Slice (Some h1) (Some (h1 + o1))]) (\<lambda>img.
         Inr [''image'' \<mapsto> img, ''label'' \<mapsto> lbl])))))))))"

subsection \<open>RandomCrop\<close>

text \<open>
  \<^verbatim>\<open>
  def __call__(self, sample):
      image, label = sample['image'], sample['label']
      if self.with_sdf:
          sdf = sample['sdf']
      # pad the sample if necessary
      if label.shape[0] <= self.output_size[0] or label.shape[1] <= self.output_size[1] or label.shape[2] <= \
              self.output_size[2]:
          pd = max((self.output_size[0] - label.shape[0]) // 2 + 3, 0)
          pw = max((self.output_size[1] - label.shape[1]) // 2 + 3, 0)
          ph = max((self.output_size[2] - label.shape[2]) // 2 + 3, 0)
          image = np.pad(image, [(0, 0), (pw, pw), (ph, ph)], mode='constant', constant_values=0)
          label = np.pad(label, [(0, 0), (pw, pw), (ph, ph)], mode='constant', constant_values=0)
          if self.with_sdf:
              sdf = np.pad(sdf, [(0, 0), (pw, pw), (ph, ph)], mode='constant', constant_values=0)
  \<close>
  The padding step returns the arrays it leaves to the crop step; the variable
  \<^verbatim>\<open>sdf\<close> is bound exactly when \<^verbatim>\<open>with_sdf\<close> is set.
\<close>

definition RandomCrop_pad ::
  "int \<times> int \<times> int \<Rightarrow> bool \<Rightarrow> sample
     \<Rightarrow> error + (real ndarray \<times> real ndarray \<times> real ndarray option)" where
  "RandomCrop_pad output_size with_sdf sample =
     (case output_size of (o0, o1, o2) \<Rightarrow>
      bind_err (dict_get sample ''image'') (\<lambda>img.
      bind_err (dict_get sample ''label'') (\<lambda>lbl.
      bind_err (if with_sdf
                then bind_err (dict_get sample ''sdf'') (\<lambda>sdf. Inr (Some sdf))
                else Inr None) (\<lambda>sdf.
      bind_err (shape_at lbl 0) (\<lambda>l0.
      bind_err (if int l0 \<le> o0 then Inr True
                else bind_err (shape_at lbl 1) (\<lambda>l1.
                     if int l1 \<le> o1 then Inr True
                     else bind_err (shape_at lbl 2) (\<lambda>l2. Inr (int l2 \<le> o2)))) (\<lambda>need_pad.
      if need_pad
      then bind_err (shape_at lbl 1) (\<lambda>l1.
           bind_err (shape_at lbl 2) (\<lambda>l2.
           let pd = max ((o0 - int l0) div 2 + 3) 0;
               pw = max ((o1 - int l1) div 2 + 3) 0;
               ph = max ((o2 - int l2) div 2 + 3) 0
           in bind_err (np_pad img [(0, 0), (pw, pw), (ph, ph)]) (\<lambda>img.
              bind_err (np_pad lbl [(0, 0), (pw, pw), (ph, ph)]) (\<lambda>lbl.
              bind_err (case sdf of
                          None \<Rightarrow> Inr None
                        | Some s \<Rightarrow> bind_err (np_pad s [(0, 0), (pw, pw), (ph, ph)])
                                     (\<lambda>s. Inr (Some s))) (\<lambda>sdf.
              Inr (img, lbl, sdf))))))
      else Inr (img, lbl, sdf)))))))"

text \<open>
  \<^verbatim>\<open>
      (d, w, h) = image.shape
      w1 = np.random.randint(0, w - self.output_size[1])
      h1 = np.random.randint(0, h - self.output_size[2])
      label = label[:, w1:w1 + self.output_size[1], h1:h1 + self.output_size[2]]
      image = image[:, w1:w1 + self.output_size[1], h1:h1 + self.output_size[2]]
      if self.with_sdf:
          sdf = sdf[:,w1:w1 + self.output_size[1], h1:h1 + self.output_size[2]]
          return {'image': image, 'label': label, 'sdf': sdf}
      else:
          return {'image': image, 'label': label}
  \<close>
  \<open>u1\<close> and \<open>u2\<close> stand for the generator at the two calls of \<^verbatim>\<open>randint\<close>.
\<close>

definition crop_slices :: "int \<times> int \<times> int \<Rightarrow> int \<Rightarrow> int \<Rightarrow> index list" where
  "crop_slices output_size w1 h1 =
     (case output_size of (o0, o1, o2) \<Rightarrow>
        [Slice None None, Slice (Some w1) (Some (w1 + o1)), Slice (Some h1) (Some (h1 + o2))])"

definition RandomCrop_crop ::
  "int \<times> int \<times> int \<Rightarrow> int \<Rightarrow> int
     \<Rightarrow> real ndarray \<times> real ndarray \<times> real ndarray option \<Rightarrow> error + sample" where
  "RandomCrop_crop output_size u1 u2 padded =
     (case output_size of (o0, o1, o2) \<Rightarrow>
      case padded of (img, lbl, sdf) \<Rightarrow>
      bind_err (unpack3 (shape img)) (\<lambda>(d, w, h).
      bind_err (randint 0 (int w - o1) u1) (\<lambda>w1.
      bind_err (randint 0 (int h - o2) u2) (\<lambda>h1.
      bind_err (getitem lbl (crop_slices output_size w1 h1)) (\<lambda>lbl.
      bind_err (getitem img (crop_slices output_size w1 h1)) (\<lambda>img.
      case sdf of
        Some s \<Rightarrow> bind_err (getitem s (crop_slices output_size w1 h1)) (\<lambda>s.
                   Inr [''image'' \<mapsto> img, ''label'' \<mapsto> lbl, ''sdf'' \<mapsto> s])
      | None \<Rightarrow> Inr [''image'' \<mapsto> img, ''label'' \<mapsto> lbl]))))))"

definition RandomCrop ::
  "int \<times> int \<times> int \<Rightarrow> bool \<Rightarrow> int \<Rightarrow> int \<Rightarrow> sample \<Rightarrow> error + sample" where
  "RandomCrop output_size with_sdf u1 u2 sample =
     bind_err (RandomCrop_pad output_size with_sdf sample)
       (RandomCrop_crop output_size u1 u2)"

subsection \<open>RandomRotFlip\<close>

text \<open>
  \<^verbatim>\<open>
  def __call__(self, sample):
      image, label = sample['image'], sample['label']
      k = np.random.randint(0, 4)
      for i in range(k):
          image = np.rot90(image, axes=(1, 2))
          label = np.rot90(label, axes=(1, 2))
      axis = np.random.randint(0, 2)
      image = np.flip(image, axis=axis).copy()
      label = np.flip(label, axis=axis).copy()
      return {'image': image, 'label': label}
  \<close>
  The loop rotates both arrays in each of its \<open>k\<close> rounds. \<open>uk\<close> and \<open>ua\<close> stand for the
  generator at the two calls of \<^verbatim>\<open>randint\<close>.
\<close>

fun rot_loop ::
  "nat \<Rightarrow> real ndarray \<Rightarrow> real ndarray \<Rightarrow> error + (real ndarray \<times> real ndarray)" where
  "rot_loop 0 img lbl = Inr (img, lbl)"
| "rot_loop (Suc n) img lbl =
     bind_err (np_rot90 img) (\<lambda>img.
     bind_err (np_rot90 lbl) (\<lambda>lbl.
     rot_loop n img lbl))"

definition RandomRotFlip :: "int \<Rightarrow> int \<Rightarrow> sample \<Rightarrow> error + sample" where
  "RandomRotFlip uk ua sample =
     bind_err (dict_get sample ''image'') (\<lambda>img.
     bind_err (dict_get sample ''label'') (\<lambda>lbl.
     bind_err (randint 0 4 uk) (\<lambda>k.
     bind_err (rot_loop (nat k) img lbl) (\<lambda>(img, lbl).
     bind_err (randint 0 2 ua) (\<lambda>axis.
     bind_err (np_flip img (nat axis)) (\<lambda>img.
     bind_err (np_flip lbl (nat axis)) (\<lambda>lbl.
     Inr [''image'' \<mapsto> img, ''label'' \<mapsto> lbl])))))))"

subsection \<open>RandomNoise\<close>


subsection \<open>CreateOnehotLabel\<close>

text \<open>
  \<^verbatim>\<open>
  def __call__(self, sample):
      image, label = sample['image'], sample['label']
      onehot_label = np.zeros((self.num_classes, label.shape[0], label.shape[1], label.shape[2]), dtype=np.float32)
      for i in range(self.num_classes):
          onehot_label[i, :, :, :] = (label == i).astype(np.float32)
      return {'image': image, 'label': label,'onehot_label':onehot_label}
  \<close>
  \<^verbatim>\<open>np.zeros\<close> raises \<^verbatim>\<open>ValueError\<close> for a negative extent. The comparison gives an
  array of truth values, which the conversion turns into zeros and ones.
\<close>

definition np_zeros :: "int \<Rightarrow> nat \<Rightarrow> nat \<Rightarrow> nat \<Rightarrow> error + real ndarray" where
  "np_zeros c d0 d1 d2 =
     (if c < 0 then Inl ValueError
      else Inr \<lparr>shape = [nat c, d0, d1, d2], elem = (\<lambda>idx. 0)\<rparr>)"

definition np_eq :: "real ndarray \<Rightarrow> int \<Rightarrow> bool ndarray" where
  "np_eq a i = amap (\<lambda>x. x = real_of_int i) a"

definition astype_float :: "bool ndarray \<Rightarrow> real ndarray" where
  "astype_float a = amap (\<lambda>b. if b then 1 else 0) a"

fun onehot_loop :: "real ndarray \<Rightarrow> nat list \<Rightarrow> real ndarray \<Rightarrow> error + real ndarray" where
  "onehot_loop lbl [] onehot_label = Inr onehot_label"
| "onehot_loop lbl (i # rest) onehot_label =
     bind_err (setitem_first onehot_label i (astype_float (np_eq lbl (int i))))
       (onehot_loop lbl rest)"

definition CreateOnehotLabel :: "int \<Rightarrow> sample \<Rightarrow> error + sample" where
  "CreateOnehotLabel num_classes sample =
     bind_err (dict_get sample ''image'') (\<lambda>img.
     bind_err (dict_get sample ''label'') (\<lambda>lbl.
     bind_err (shape_at lbl 0) (\<lambda>d0.
     bind_err (shape_at lbl 1) (\<lambda>d1.
     bind_err (shape_at lbl 2) (\<lambda>d2.
     bind_err (np_zeros num_classes d0 d1 d2) (\<lambda>onehot_label.
     bind_err (onehot_loop lbl [0..<nat num_classes] onehot_label) (\<lambda>onehot_label.
     Inr [''image'' \<mapsto> img, ''label'' \<mapsto> lbl,
          ''onehot_label'' \<mapsto> onehot_label])))))))"

section \<open>TwoStreamBatchSampler\<close>

text \<open>
  \<^verbatim>\<open>
  def __init__(self, primary_indices, secondary_indices, batch_size, secondary_batch_size):
      self.primary_indices = primary_indices
      self.secondary_indices = secondary_indices
      self.secondary_batch_size = secondary_batch_size
      self.primary_batch_size = batch_size - secondary_batch_size

      assert len(self.primary_indices) >= self.primary_batch_size > 0
      assert len(self.secondary_indices) >= self.secondary_batch_size > 0
  \<close>
\<close>

record sampler =
  primary_indices :: "int list"
  secondary_indices :: "int list"
  secondary_batch_size :: int
  primary_batch_size :: int

definition TwoStreamBatchSampler_init ::
  "int list \<Rightarrow> int list \<Rightarrow> int \<Rightarrow> int \<Rightarrow> error + sampler" where
  "TwoStreamBatchSampler_init primary secondary batch_size secondary_bs =
     (let self = \<lparr>primary_indices = primary, secondary_indices = secondary,
                  secondary_batch_size = secondary_bs,
                  primary_batch_size = batch_size - secondary_bs\<rparr>
      in if \<not> (int (length (primary_indices self)) \<ge> primary_batch_size self
                \<and> primary_batch_size self > 0) then Inl AssertionError
         else if \<not> (int (length (secondary_indices self)) \<ge> secondary_batch_size self
                \<and> secondary_batch_size self > 0) then Inl AssertionError
         else Inr self)"

text \<open>
  \<^verbatim>\<open>
  def __len__(self):
      return len(self.primary_indices) // self.primary_batch_size
  \<close>
  Python's \<^verbatim>\<open>//\<close> on integers is floor division and raises on a zero divisor.
\<close>

definition TwoStreamBatchSampler_len :: "sampler \<Rightarrow> error + int" where
  "TwoStreamBatchSampler_len self =
     (if primary_batch_size self = 0 then Inl ZeroDivisionError
      else Inr (int (length (primary_indices self)) div primary_batch_size self))"

text \<open>
  \<^verbatim>\<open>
  def grouper(iterable, n):
      args = [iter(iterable)] * n
      return zip(*args)
  \<close>
  The same iterator is repeated \<open>n\<close> times, so \<^verbatim>\<open>zip\<close> pulls \<open>n\<close> successive
  items for every tuple and stops, dropping what it has pulled, when the iterator runs
  out. For \<open>n \<le> 0\<close> the argument list is empty and \<^verbatim>\<open>zip()\<close> yields nothing.
  On a finite iterable (the primary permutation) the result is a list of chunks.
\<close>

fun grouper :: "'a list \<Rightarrow> nat \<Rightarrow> 'a list list" where
  "grouper xs n =
     (if n = 0 \<or> length xs < n then []
      else take n xs # grouper (drop n xs) n)"

text \<open>
  \<^verbatim>\<open>
  def iterate_eternally(indices):
      def infinite_shuffles():
          while True:
              yield np.random.permutation(indices)
      return itertools.chain.from_iterable(infinite_shuffles())
  \<close>
  The random generator is represented by the sequence \<open>shuf\<close> of the permutations
  that \<^verbatim>\<open>np.random.permutation\<close> returns, in the order of the calls. The state of
  the chained iterator is the unread rest of the current permutation and the number
  of permutations requested so far. Fetching the next item loops until a permutation
  is non-empty; it never returns when all of them are empty, so the step is a partial
  function and \<open>None\<close> stands for not returning.
\<close>

type_synonym chain_state = "int list \<times> nat"

partial_function (option) chain_next ::
  "(nat \<Rightarrow> int list) \<Rightarrow> chain_state \<Rightarrow> (int \<times> chain_state) option" where
  "chain_next shuf st =
     (case fst st of
        x # rest \<Rightarrow> Some (x, (rest, snd st))
      | [] \<Rightarrow> chain_next shuf (shuf (snd st), Suc (snd st)))"

text \<open>One tuple of \<^verbatim>\<open>grouper(secondary_iter, n)\<close>: \<open>n\<close> successive items.\<close>

fun take_chunk ::
  "(nat \<Rightarrow> int list) \<Rightarrow> nat \<Rightarrow> chain_state \<Rightarrow> (int list \<times> chain_state) option" where
  "take_chunk shuf 0 st = Some ([], st)"
| "take_chunk shuf (Suc n) st =
     (case chain_next shuf st of
        None \<Rightarrow> None
      | Some (x, st') \<Rightarrow>
          (case take_chunk shuf n st' of
             None \<Rightarrow> None
           | Some (xs, st'') \<Rightarrow> Some (x # xs, st'')))"

text \<open>
  \<^verbatim>\<open>
  (primary_batch + secondary_batch
   for (primary_batch, secondary_batch)
   in zip(grouper(primary_iter, self.primary_batch_size),
          grouper(secondary_iter, self.secondary_batch_size)))
  \<close>
  \<^verbatim>\<open>zip\<close> asks the primary grouper first and stops when it is exhausted; otherwise it
  asks the secondary grouper, which for a chunk size \<open>\<le> 0\<close> is exhausted at once.
\<close>

fun zip_batches ::
  "(nat \<Rightarrow> int list) \<Rightarrow> int \<Rightarrow> int list list \<Rightarrow> chain_state \<Rightarrow> int list list option" where
  "zip_batches shuf sbs [] st = Some []"
| "zip_batches shuf sbs (primary_batch # rest) st =
     (if sbs \<le> 0 then Some []
      else case take_chunk shuf (nat sbs) st of
             None \<Rightarrow> None
           | Some (secondary_batch, st') \<Rightarrow>
               (case zip_batches shuf sbs rest st' of
                  None \<Rightarrow> None
                | Some bs \<Rightarrow> Some ((primary_batch @ secondary_batch) # bs)))"

text \<open>
  \<^verbatim>\<open>
  def __iter__(self):
      primary_iter = iterate_once(self.primary_indices)
      secondary_iter = iterate_eternally(self.secondary_indices)
      return ( ... )
  \<close>
  \<open>perm\<close> is the permutation of the primary indices that \<^verbatim>\<open>iterate_once\<close> (one call
  of \<^verbatim>\<open>np.random.permutation\<close>) returns. The result is the list of all batches of
  one full iteration, or \<open>None\<close> when the iteration does not end.
\<close>

definition TwoStreamBatchSampler_iter ::
  "sampler \<Rightarrow> int list \<Rightarrow> (nat \<Rightarrow> int list) \<Rightarrow> int list list option" where
  "TwoStreamBatchSampler_iter self perm shuf =
     zip_batches shuf (secondary_batch_size self)
       (grouper perm (nat (primary_batch_size self))) ([], 0)"

text \<open>The construction preconditions, as the two assertions state them.\<close>

definition preconditions :: "int list \<Rightarrow> int list \<Rightarrow> int \<Rightarrow> int \<Rightarrow> bool" where
  "preconditions primary secondary batch_size secondary_bs =
     ((int (length primary) \<ge> batch_size - secondary_bs \<and> batch_size - secondary_bs > 0)
      \<and> (int (length secondary) \<ge> secondary_bs \<and> secondary_bs > 0))"

declare grouper.simps [simp del]

section \<open>Example inputs\<close>

text \<open>
  The example of the specification: five primary indices, two secondary ones, batches
  of four with two secondary entries each.
\<close>

definition example_sampler :: sampler where
  "example_sampler = \<lparr>primary_indices = [0, 1, 2, 3, 4], secondary_indices = [10, 11],
     secondary_batch_size = 2, primary_batch_size = 2\<rparr>"

definition example_shuffles :: "nat \<Rightarrow> int list" where
  "example_shuffles k = (if even k then [11, 10] else [10, 11])"

text \<open>
  Arrays and samples for the examples: the element at an index is a number that
  spells the index, so that every element of an array is different.
\<close>

definition marker_array :: "nat list \<Rightarrow> real ndarray" where
  "marker_array sh = \<lparr>shape = sh, elem = (\<lambda>idx. real (foldl (\<lambda>acc i. 10 * acc + i) 1 idx))\<rparr>"

definition mismatched_sample :: sample where
  "mismatched_sample =
     [''image'' \<mapsto> marker_array [1, 2, 2], ''label'' \<mapsto> marker_array [1, 4, 4]]"

definition sdf_sample :: sample where
  "sdf_sample =
     [''image'' \<mapsto> marker_array [1, 4, 4], ''label'' \<mapsto> marker_array [1, 4, 4],
      ''sdf'' \<mapsto> marker_array [1, 4, 4]]"

definition example_sample :: "nat list \<Rightarrow> sample" where
  "example_sample sh = [''image'' \<mapsto> marker_array sh, ''label'' \<mapsto> marker_array sh]"

text \<open>A label of shape \<open>(1, 2, 2)\<close> with the classes 0 and 1, and a sample with an sdf.\<close>

definition class_array :: "real ndarray" where
  "class_array = \<lparr>shape = [1, 2, 2], elem = (\<lambda>idx. real (sum_list idx mod 2))\<rparr>"

definition onehot_sample :: sample where
  "onehot_sample =
     [''image'' \<mapsto> marker_array [1, 2, 2], ''label'' \<mapsto> class_array,
      ''sdf'' \<mapsto> marker_array [1, 2, 2]]"

text \<open>Reading a key of the sample that a transform returned.\<close>

definition result_lookup :: "error + sample \<Rightarrow> string \<Rightarrow> real ndarray option" where
  "result_lookup res key = (case res of Inl e \<Rightarrow> None | Inr r \<Rightarrow> r key)"



text \<open>
  A dataset of two samples without a transform: images of shape \<open>(1, 2, 2)\<close>, labels
  with two channels.
\<close>

definition example_drive :: drive where
  "example_drive = \<lparr>transform = None, image_list = marker_array [2, 1, 2, 2],
     label_list = marker_array [2, 2, 2, 2], mask_list = marker_array [2, 1, 2, 2]\<rparr>"

section \<open>Properties of the sampler\<close>

lemma length_grouper: "0 < n \<Longrightarrow> length (grouper xs n) = length xs div n"
proof (induction xs n rule: grouper.induct)
  case (1 xs n)
  show ?case
  proof (cases "length xs < n")
    case True
    then show ?thesis by (simp add: grouper.simps [of xs n])
  next
    case False
    with 1 have "length (grouper (drop n xs) n) = (length xs - n) div n" by simp
    with False 1(2) show ?thesis
      by (simp add: grouper.simps [of xs n] le_div_geq)
  qed
qed

lemma grouper_chunk_length: "c \<in> set (grouper xs n) \<Longrightarrow> length c = n"
proof (induction xs n rule: grouper.induct)
  case (1 xs n)
  then show ?case
    by (auto simp: grouper.simps [of xs n] split: if_splits)
qed

lemma concat_grouper: "\<exists>zs. concat (grouper xs n) @ zs = xs"
proof (induction xs n rule: grouper.induct)
  case (1 xs n)
  show ?case
  proof (cases "n = 0 \<or> length xs < n")
    case True
    then show ?thesis by (simp add: grouper.simps [of xs n])
  next
    case False
    with 1 obtain zs where "concat (grouper (drop n xs) n) @ zs = drop n xs" by blast
    with False have "concat (grouper xs n) @ zs = take n xs @ drop n xs"
      by (simp add: grouper.simps [of xs n])
    then show ?thesis by auto
  qed
qed

lemma chain_next_total:
  assumes "\<forall>k. shuf k \<noteq> []"
  shows "\<exists>x st'. chain_next shuf st = Some (x, st')
           \<and> x \<in> set (fst st) \<union> (\<Union>k. set (shuf k))
           \<and> set (fst st') \<subseteq> set (fst st) \<union> (\<Union>k. set (shuf k))"
proof (cases "fst st")
  case (Cons x rest)
  then show ?thesis
    by (subst chain_next.simps) auto
next
  case Nil
  obtain y ys where s: "shuf (snd st) = y # ys"
    using assms by (cases "shuf (snd st)") auto
  have "chain_next shuf st = chain_next shuf (shuf (snd st), Suc (snd st))"
    using Nil by (subst chain_next.simps) simp
  also have "\<dots> = Some (y, (ys, Suc (snd st)))"
    using s by (subst chain_next.simps) simp
  finally show ?thesis
    using s by (auto intro: exI [of _ "snd st"]) (metis list.set_intros(2))
qed

lemma chain_next_inv:
  assumes "\<forall>k. shuf k \<noteq> [] \<and> set (shuf k) \<subseteq> S" and "set (fst st) \<subseteq> S"
  shows "\<exists>x st'. chain_next shuf st = Some (x, st') \<and> x \<in> S \<and> set (fst st') \<subseteq> S"
proof -
  have "\<forall>k. shuf k \<noteq> []" using assms(1) by blast
  from chain_next_total [OF this, of st]
  obtain x st' where r: "chain_next shuf st = Some (x, st')"
    "x \<in> set (fst st) \<union> (\<Union>k. set (shuf k))"
    "set (fst st') \<subseteq> set (fst st) \<union> (\<Union>k. set (shuf k))"
    by blast
  have "set (fst st) \<union> (\<Union>k. set (shuf k)) \<subseteq> S"
    using assms by blast
  with r show ?thesis by blast
qed

lemma take_chunk_inv:
  assumes "\<forall>k. shuf k \<noteq> [] \<and> set (shuf k) \<subseteq> S"
  shows "set (fst st) \<subseteq> S \<Longrightarrow>
    \<exists>xs st'. take_chunk shuf n st = Some (xs, st') \<and> length xs = n
        \<and> set xs \<subseteq> S \<and> set (fst st') \<subseteq> S"
proof (induction n arbitrary: st)
  case 0
  then show ?case by simp
next
  case (Suc n)
  from chain_next_inv [OF assms Suc.prems]
  obtain x st1 where a: "chain_next shuf st = Some (x, st1)" "x \<in> S" "set (fst st1) \<subseteq> S"
    by blast
  from Suc.IH [OF a(3)]
  obtain xs st2 where b: "take_chunk shuf n st1 = Some (xs, st2)" "length xs = n"
    "set xs \<subseteq> S" "set (fst st2) \<subseteq> S"
    by blast
  from a b show ?case by simp
qed

lemma zip_batches_inv:
  assumes "\<forall>k. shuf k \<noteq> [] \<and> set (shuf k) \<subseteq> S" and "0 < sbs"
  shows "set (fst st) \<subseteq> S \<Longrightarrow>
    \<exists>secs. zip_batches shuf sbs chunks st = Some (map2 (@) chunks secs)
        \<and> length secs = length chunks
        \<and> (\<forall>sec \<in> set secs. length sec = nat sbs \<and> set sec \<subseteq> S)"
proof (induction chunks arbitrary: st)
  case Nil
  then show ?case by simp
next
  case (Cons c chunks)
  from take_chunk_inv [OF assms(1) Cons.prems, of "nat sbs"]
  obtain sec st1 where a: "take_chunk shuf (nat sbs) st = Some (sec, st1)"
    "length sec = nat sbs" "set sec \<subseteq> S" "set (fst st1) \<subseteq> S"
    by blast
  from Cons.IH [OF a(4)]
  obtain secs where b: "zip_batches shuf sbs chunks st1 = Some (map2 (@) chunks secs)"
    "length secs = length chunks" "\<forall>sec \<in> set secs. length sec = nat sbs \<and> set sec \<subseteq> S"
    by blast
  have "zip_batches shuf sbs (c # chunks) st = Some (map2 (@) (c # chunks) (sec # secs))"
    using a(1) b(1) assms(2) by simp
  moreover have "length (sec # secs) = length (c # chunks)"
    using b(2) by simp
  moreover have "\<forall>s \<in> set (sec # secs). length s = nat sbs \<and> set s \<subseteq> S"
    using a(2,3) b(3) by simp
  ultimately show ?case by blast
qed

lemma map_take_zip_append:
  "length secs = length chunks \<Longrightarrow> \<forall>c \<in> set chunks. length c = n \<Longrightarrow>
   map (take n) (map2 (@) chunks secs) = chunks \<and> map (drop n) (map2 (@) chunks secs) = secs"
proof (induction chunks arbitrary: secs)
  case Nil
  then show ?case by simp
next
  case (Cons c chunks)
  then obtain s ss where "secs = s # ss" by (cases secs) auto
  with Cons show ?case by simp
qed

lemma batches_of_sampler:
  assumes pre: "preconditions primary secondary batch_size secondary_bs"
    and init: "TwoStreamBatchSampler_init primary secondary batch_size secondary_bs = Inr self"
    and perm: "mset perm = mset primary"
    and shuf: "\<forall>k. mset (shuf k) = mset secondary"
  shows "\<exists>chunks secs.
      TwoStreamBatchSampler_iter self perm shuf = Some (map2 (@) chunks secs)
    \<and> length secs = length chunks
    \<and> int (length chunks) = int (length primary) div (batch_size - secondary_bs)
    \<and> (\<forall>c \<in> set chunks. int (length c) = batch_size - secondary_bs)
    \<and> (\<forall>s \<in> set secs. int (length s) = secondary_bs \<and> set s \<subseteq> set secondary)
    \<and> (\<exists>zs. concat chunks @ zs = perm)"
proof -
  define pbs where "pbs = batch_size - secondary_bs"
  have self: "self = \<lparr>primary_indices = primary, secondary_indices = secondary,
      secondary_batch_size = secondary_bs, primary_batch_size = pbs\<rparr>"
    using init by (auto simp: TwoStreamBatchSampler_init_def Let_def pbs_def split: if_splits)
  have p: "0 < pbs" "pbs \<le> int (length primary)" "0 < secondary_bs"
    "secondary_bs \<le> int (length secondary)"
    using pre by (auto simp: preconditions_def pbs_def)
  have ne: "secondary \<noteq> []" using p(3,4) by auto
  have s1: "\<forall>k. shuf k \<noteq> [] \<and> set (shuf k) \<subseteq> set secondary"
  proof
    fix k
    have "mset (shuf k) = mset secondary" using shuf by blast
    then have "set (shuf k) = set secondary" by (rule mset_eq_setD)
    with ne show "shuf k \<noteq> [] \<and> set (shuf k) \<subseteq> set secondary" by auto
  qed
  define chunks where "chunks = grouper perm (nat pbs)"
  from zip_batches_inv [OF s1 p(3), of "([], 0)" chunks]
  obtain secs where z: "zip_batches shuf secondary_bs chunks ([], 0) = Some (map2 (@) chunks secs)"
    "length secs = length chunks"
    "\<forall>sec \<in> set secs. length sec = nat secondary_bs \<and> set sec \<subseteq> set secondary"
    by auto
  have "length perm = length primary"
    using perm by (metis size_mset)
  then have "int (length chunks) = int (length primary) div pbs"
    using p(1) by (simp add: chunks_def length_grouper zdiv_int)
  moreover have "\<forall>c \<in> set chunks. int (length c) = pbs"
    using p(1) by (auto simp: chunks_def dest: grouper_chunk_length)
  moreover have "\<forall>s \<in> set secs. int (length s) = secondary_bs \<and> set s \<subseteq> set secondary"
    using z(3) p(3) by auto
  moreover have "\<exists>zs. concat chunks @ zs = perm"
    unfolding chunks_def by (rule concat_grouper)
  moreover have "TwoStreamBatchSampler_iter self perm shuf = Some (map2 (@) chunks secs)"
    using z(1) by (simp add: TwoStreamBatchSampler_iter_def self chunks_def)
  ultimately show ?thesis
    using z(2) unfolding pbs_def by blast
qed

lemma concat_secs_length:
  "\<forall>s \<in> set secs. length s = n \<Longrightarrow> length (concat secs) = length secs * n"
  by (induction secs) auto

lemma repeats_when_pool_cycles:
  assumes "set xs \<subseteq> set pool" and "length pool < length xs"
  shows "\<not> distinct xs"
proof
  assume "distinct xs"
  then have "length xs = card (set xs)" by (simp add: distinct_card)
  also have "\<dots> \<le> card (set pool)" using assms(1) by (simp add: card_mono)
  also have "\<dots> \<le> length pool" by (rule card_length)
  finally show False using assms(2) by simp
qed

text \<open>
  Claim C1. For a sampler whose construction succeeded, \<open>__len__\<close> returns
  \<open>len(primary_indices) // primary_batch_size\<close> with
  \<open>primary_batch_size = batch_size - secondary_batch_size\<close>. Whatever permutation of
  the primary pool and whatever permutations of the secondary pool the generator
  returns, one full iteration ends and yields exactly that many batches; each batch
  has \<open>primary_batch_size + secondary_batch_size\<close> entries; its entries after the
  first \<open>primary_batch_size\<close> come from the secondary pool; the first
  \<open>primary_batch_size\<close> entries of all batches together are drawn from the primary
  pool without replacement (as a multiset they are contained in the pool, so an
  index occurs among them at most as often as it is listed in the pool, and not twice
  when the pool lists no index twice). The secondary entries may repeat: they do
  whenever the epoch takes more of them than the secondary pool holds.
\<close>

theorem TwoStreamBatchSampler_epoch:
  assumes init: "TwoStreamBatchSampler_init primary secondary batch_size secondary_bs = Inr self"
    and perm: "mset perm = mset primary"
    and shuf: "\<forall>k. mset (shuf k) = mset secondary"
  shows "primary_batch_size self = batch_size - secondary_bs
    \<and> TwoStreamBatchSampler_len self = Inr (int (length primary) div primary_batch_size self)
    \<and> (\<exists>batches. TwoStreamBatchSampler_iter self perm shuf = Some batches
         \<and> TwoStreamBatchSampler_len self = Inr (int (length batches))
         \<and> (\<forall>b \<in> set batches.
               int (length b) = primary_batch_size self + secondary_bs
             \<and> set (drop (nat (primary_batch_size self)) b) \<subseteq> set secondary)
         \<and> mset (concat (map (take (nat (primary_batch_size self))) batches)) \<subseteq># mset primary
         \<and> (distinct primary \<longrightarrow>
               distinct (concat (map (take (nat (primary_batch_size self))) batches)))
         \<and> (int (length secondary) < int (length batches) * secondary_bs \<longrightarrow>
               \<not> distinct (concat (map (drop (nat (primary_batch_size self))) batches))))"
proof -
  define pbs where "pbs = batch_size - secondary_bs"
  have pre: "preconditions primary secondary batch_size secondary_bs"
    using init by (auto simp: TwoStreamBatchSampler_init_def preconditions_def Let_def
        split: if_splits)
  have self: "self = \<lparr>primary_indices = primary, secondary_indices = secondary,
      secondary_batch_size = secondary_bs, primary_batch_size = pbs\<rparr>"
    using init by (auto simp: TwoStreamBatchSampler_init_def Let_def pbs_def split: if_splits)
  have p: "0 < pbs" "0 < secondary_bs"
    using pre by (auto simp: preconditions_def pbs_def)
  have len: "TwoStreamBatchSampler_len self = Inr (int (length primary) div pbs)"
    using p(1) by (simp add: TwoStreamBatchSampler_len_def self)
  from batches_of_sampler [OF pre init perm shuf]
  obtain chunks secs zs where b:
    "TwoStreamBatchSampler_iter self perm shuf = Some (map2 (@) chunks secs)"
    "length secs = length chunks"
    "int (length chunks) = int (length primary) div pbs"
    "\<forall>c \<in> set chunks. int (length c) = pbs"
    "\<forall>s \<in> set secs. int (length s) = secondary_bs \<and> set s \<subseteq> set secondary"
    "concat chunks @ zs = perm"
    unfolding pbs_def by blast
  define batches where "batches = map2 (@) chunks secs"
  have cl: "\<forall>c \<in> set chunks. length c = nat pbs"
    using b(4) by auto
  have sl: "\<forall>s \<in> set secs. length s = nat secondary_bs"
    using b(5) by auto
  from map_take_zip_append [OF b(2) cl]
  have tk: "map (take (nat pbs)) batches = chunks" and dr: "map (drop (nat pbs)) batches = secs"
    by (simp_all add: batches_def)
  have lb: "length batches = length chunks"
    using b(2) by (simp add: batches_def)
  have c2: "TwoStreamBatchSampler_len self = Inr (int (length batches))"
    using len lb b(3) by simp
  have c3: "\<forall>bt \<in> set batches. int (length bt) = pbs + secondary_bs
      \<and> set (drop (nat pbs) bt) \<subseteq> set secondary"
  proof
    fix bt assume "bt \<in> set batches"
    then obtain c s where cs: "bt = c @ s" "c \<in> set chunks" "s \<in> set secs"
      unfolding batches_def by (auto dest: set_zip_leftD set_zip_rightD)
    with b(4,5) cl p(1) show "int (length bt) = pbs + secondary_bs
      \<and> set (drop (nat pbs) bt) \<subseteq> set secondary"
      by auto
  qed
  have "mset (concat chunks) \<subseteq># mset perm"
    using b(6) by (metis mset_append mset_subset_eq_add_left)
  then have c4: "mset (concat (map (take (nat pbs)) batches)) \<subseteq># mset primary"
    using perm tk by simp
  have c5: "distinct primary \<longrightarrow> distinct (concat (map (take (nat pbs)) batches))"
  proof
    assume "distinct primary"
    then have "distinct perm" using perm by (metis mset_eq_imp_distinct_iff)
    then have "distinct (concat chunks)" using b(6) by (metis distinct_append)
    then show "distinct (concat (map (take (nat pbs)) batches))" using tk by simp
  qed
  have c6: "int (length secondary) < int (length batches) * secondary_bs \<longrightarrow>
      \<not> distinct (concat (map (drop (nat pbs)) batches))"
  proof
    assume a: "int (length secondary) < int (length batches) * secondary_bs"
    have "length (concat secs) = length secs * nat secondary_bs"
      using sl by (rule concat_secs_length)
    then have "int (length (concat secs)) = int (length batches) * secondary_bs"
      using lb b(2) p(2) by simp
    then have "length secondary < length (concat secs)" using a by linarith
    moreover have "set (concat secs) \<subseteq> set secondary" using b(5) by auto
    ultimately have "\<not> distinct (concat secs)" by (rule repeats_when_pool_cycles [rotated])
    then show "\<not> distinct (concat (map (drop (nat pbs)) batches))" using dr by simp
  qed
  have ps: "primary_batch_size self = pbs" by (simp add: self)
  show ?thesis
    unfolding ps using len c2 c3 c4 c5 c6 b(1) pbs_def batches_def by blast
qed

lemma example_iter:
  "TwoStreamBatchSampler_iter example_sampler [3, 0, 4, 1, 2] example_shuffles
     = Some [[3, 0, 11, 10], [4, 1, 10, 11]]"
  by (simp add: TwoStreamBatchSampler_iter_def example_sampler_def example_shuffles_def
      grouper.simps chain_next.simps numeral_2_eq_2)

text \<open>The example of the specification, with one outcome of the shuffles.\<close>

theorem TwoStreamBatchSampler_epoch_witness:
  "TwoStreamBatchSampler_init [0, 1, 2, 3, 4] [10, 11] 4 2 = Inr example_sampler
   \<and> mset [3, 0, 4, 1, 2] = mset [0, 1, 2, 3, 4 :: int]
   \<and> (\<forall>k. mset (example_shuffles k) = mset [10, 11])
   \<and> TwoStreamBatchSampler_len example_sampler = Inr 2
   \<and> (\<exists>batches. TwoStreamBatchSampler_iter example_sampler [3, 0, 4, 1, 2] example_shuffles
          = Some batches
        \<and> length batches = 2
        \<and> (\<forall>b \<in> set batches. length b = 4)
        \<and> distinct (concat (map (take 2) batches))
        \<and> \<not> distinct (concat (map (drop 2) batches)))"
proof -
  have i: "TwoStreamBatchSampler_init [0, 1, 2, 3, 4] [10, 11] 4 2 = Inr example_sampler"
    by (simp add: TwoStreamBatchSampler_init_def example_sampler_def)
  have p: "mset [3, 0, 4, 1, 2] = mset [0, 1, 2, 3, 4 :: int]"
    by (simp add: add_mset_commute)
  have s: "\<forall>k. mset (example_shuffles k) = mset [10, 11]"
    by (simp add: example_shuffles_def add_mset_commute)
  have ps: "primary_batch_size example_sampler = 2"
    by (simp add: example_sampler_def)
  from TwoStreamBatchSampler_epoch [OF i p s]
  show ?thesis using i p s unfolding ps by auto
qed

text \<open>
  Claim C7. Construction raises, and what it raises is the assertion error, exactly
  when the preconditions \<open>len(primary_indices) \<ge> primary_batch_size > 0\<close> and
  \<open>len(secondary_indices) \<ge> secondary_batch_size > 0\<close> are violated. When they
  hold, construction returns the sampler, and nothing fails later because of them:
  \<open>__len__\<close> divides by a positive batch size and every iteration ends.
\<close>

theorem TwoStreamBatchSampler_init_fails_iff:
  "((\<exists>e. TwoStreamBatchSampler_init primary secondary batch_size secondary_bs = Inl e)
      \<longleftrightarrow> \<not> preconditions primary secondary batch_size secondary_bs)
   \<and> (\<forall>e. TwoStreamBatchSampler_init primary secondary batch_size secondary_bs = Inl e
          \<longrightarrow> e = AssertionError)
   \<and> (preconditions primary secondary batch_size secondary_bs \<longrightarrow>
        (\<exists>self. TwoStreamBatchSampler_init primary secondary batch_size secondary_bs = Inr self
           \<and> primary_indices self = primary \<and> secondary_indices self = secondary
           \<and> secondary_batch_size self = secondary_bs
           \<and> primary_batch_size self = batch_size - secondary_bs
           \<and> (\<exists>n. TwoStreamBatchSampler_len self = Inr n)
           \<and> (\<forall>perm shuf. mset perm = mset primary
                  \<and> (\<forall>k. mset (shuf k) = mset secondary)
                \<longrightarrow> TwoStreamBatchSampler_iter self perm shuf \<noteq> None)))"
proof -
  let ?init = "TwoStreamBatchSampler_init primary secondary batch_size secondary_bs"
  let ?pre = "preconditions primary secondary batch_size secondary_bs"
  let ?self = "\<lparr>primary_indices = primary, secondary_indices = secondary,
      secondary_batch_size = secondary_bs,
      primary_batch_size = batch_size - secondary_bs\<rparr>"
  have bad: "\<not> ?pre \<Longrightarrow> ?init = Inl AssertionError"
    by (auto simp: TwoStreamBatchSampler_init_def preconditions_def Let_def)
  have good: "?pre \<Longrightarrow> ?init = Inr ?self"
    by (auto simp: TwoStreamBatchSampler_init_def preconditions_def Let_def)
  have a: "(\<exists>e. ?init = Inl e) \<longleftrightarrow> \<not> ?pre"
    using bad good by (cases ?pre) auto
  have b: "\<forall>e. ?init = Inl e \<longrightarrow> e = AssertionError"
    using bad good by (cases ?pre) auto
  have c: "?pre \<longrightarrow> (\<exists>self. ?init = Inr self
           \<and> primary_indices self = primary \<and> secondary_indices self = secondary
           \<and> secondary_batch_size self = secondary_bs
           \<and> primary_batch_size self = batch_size - secondary_bs
           \<and> (\<exists>n. TwoStreamBatchSampler_len self = Inr n)
           \<and> (\<forall>perm shuf. mset perm = mset primary
                  \<and> (\<forall>k. mset (shuf k) = mset secondary)
                \<longrightarrow> TwoStreamBatchSampler_iter self perm shuf \<noteq> None))"
  proof
    assume pre: ?pre
    have i: "?init = Inr ?self" using pre by (rule good)
    have l: "\<exists>n. TwoStreamBatchSampler_len ?self = Inr n"
      using pre by (auto simp: TwoStreamBatchSampler_len_def preconditions_def)
    have t: "\<forall>perm shuf. mset perm = mset primary \<and> (\<forall>k. mset (shuf k) = mset secondary)
        \<longrightarrow> TwoStreamBatchSampler_iter ?self perm shuf \<noteq> None"
    proof (intro allI impI)
      fix perm and shuf :: "nat \<Rightarrow> int list"
      assume h: "mset perm = mset primary \<and> (\<forall>k. mset (shuf k) = mset secondary)"
      then have "mset perm = mset primary" "\<forall>k. mset (shuf k) = mset secondary"
        by blast+
      from batches_of_sampler [OF pre i this]
      show "TwoStreamBatchSampler_iter ?self perm shuf \<noteq> None" by auto
    qed
    show "\<exists>self. ?init = Inr self
           \<and> primary_indices self = primary \<and> secondary_indices self = secondary
           \<and> secondary_batch_size self = secondary_bs
           \<and> primary_batch_size self = batch_size - secondary_bs
           \<and> (\<exists>n. TwoStreamBatchSampler_len self = Inr n)
           \<and> (\<forall>perm shuf. mset perm = mset primary
                  \<and> (\<forall>k. mset (shuf k) = mset secondary)
                \<longrightarrow> TwoStreamBatchSampler_iter self perm shuf \<noteq> None)"
      using i l t by (intro exI [of _ ?self]) simp
  qed
  show ?thesis using a b c by blast
qed

text \<open>
  At the example the preconditions hold and construction returns the sampler; with
  a primary batch size of zero (\<open>batch_size = secondary_batch_size\<close>) it raises.
\<close>

theorem TwoStreamBatchSampler_init_fails_iff_witness:
  "preconditions [0, 1, 2, 3, 4] [10, 11] 4 2
   \<and> TwoStreamBatchSampler_init [0, 1, 2, 3, 4] [10, 11] 4 2 = Inr example_sampler
   \<and> TwoStreamBatchSampler_len example_sampler = Inr 2
   \<and> TwoStreamBatchSampler_iter example_sampler [3, 0, 4, 1, 2] example_shuffles \<noteq> None
   \<and> \<not> preconditions [0, 1, 2, 3, 4] [10, 11] 2 2
   \<and> TwoStreamBatchSampler_init [0, 1, 2, 3, 4] [10, 11] 2 2 = Inl AssertionError"
proof -
  have pre: "preconditions [0, 1, 2, 3, 4] [10, 11] 4 2"
    by (simp add: preconditions_def)
  have npre: "\<not> preconditions [0, 1, 2, 3, 4] [10, 11] 2 2"
    by (simp add: preconditions_def)
  have p: "mset [3, 0, 4, 1, 2] = mset [0, 1, 2, 3, 4 :: int]"
    by (simp add: add_mset_commute)
  have s: "\<forall>k. mset (example_shuffles k) = mset [10, 11]"
    by (simp add: example_shuffles_def add_mset_commute)
  have i: "TwoStreamBatchSampler_init [0, 1, 2, 3, 4] [10, 11] 4 2 = Inr example_sampler"
    by (simp add: TwoStreamBatchSampler_init_def example_sampler_def)
  have l: "TwoStreamBatchSampler_len example_sampler = Inr 2"
    by (simp add: TwoStreamBatchSampler_len_def example_sampler_def)
  from TwoStreamBatchSampler_init_fails_iff [of "[0, 1, 2, 3, 4]" "[10, 11]" 4 2] pre i p s
  have t: "TwoStreamBatchSampler_iter example_sampler [3, 0, 4, 1, 2] example_shuffles \<noteq> None"
    by auto
  from TwoStreamBatchSampler_init_fails_iff [of "[0, 1, 2, 3, 4]" "[10, 11]" 2 2] npre
  have f: "TwoStreamBatchSampler_init [0, 1, 2, 3, 4] [10, 11] 2 2 = Inl AssertionError"
    by blast
  show ?thesis using pre i l t npre f by blast
qed

section \<open>Properties of the crops\<close>

lemma shape_ge2: "2 \<le> ndim a \<Longrightarrow> \<exists>n0 n1 rest. shape a = n0 # n1 # rest"
  unfolding ndim_def by (cases "shape a"; cases "tl (shape a)") auto

lemma shape_eq3: "ndim a = 3 \<Longrightarrow> \<exists>n0 n1 n2. shape a = [n0, n1, n2]"
  unfolding ndim_def by (cases "shape a"; cases "tl (shape a)"; cases "tl (tl (shape a))") auto

lemma getitem_two_slices:
  "shape a = n0 # n1 # rest \<Longrightarrow>
   getitem a [Slice lo0 hi0, Slice lo1 hi1] =
     Inr \<lparr>shape = slice_len n0 lo0 hi0 # slice_len n1 lo1 hi1 # rest,
          elem = (\<lambda>idx. elem a (case idx of [] \<Rightarrow> []
                    | j # r \<Rightarrow> (slice_start n0 lo0 + j) #
                        (case r of [] \<Rightarrow> [] | j' # r' \<Rightarrow> (slice_start n1 lo1 + j') # r')))\<rparr>"
  by (simp add: getitem_def)

text \<open>
  Claim C10. Let the image of the sample have exactly three axes. Whenever one of the
  first two extents of the label is at most the corresponding entry of
  \<open>output_size\<close>, CenterCrop raises: the padding branch passes two pad pairs to
  \<^verbatim>\<open>np.pad\<close> for an array of three axes. So CenterCrop returns exactly when the
  sample has a label with at least two axes whose first two extents both exceed
  the entries of \<open>output_size\<close>.
\<close>

theorem CenterCrop_returns_iff:
  assumes img: "sample ''image'' = Some img" and n3: "ndim img = 3"
  shows "(\<forall>lbl. sample ''label'' = Some lbl \<and> 2 \<le> ndim lbl
            \<and> (int (shape lbl ! 0) \<le> o0 \<or> int (shape lbl ! 1) \<le> o1)
          \<longrightarrow> CenterCrop (o0, o1) sample = Inl ValueError)
       \<and> ((\<exists>r. CenterCrop (o0, o1) sample = Inr r) \<longleftrightarrow>
            (\<exists>lbl. sample ''label'' = Some lbl \<and> 2 \<le> ndim lbl
               \<and> o0 < int (shape lbl ! 0) \<and> o1 < int (shape lbl ! 1)))"
proof -
  obtain w h d where si: "shape img = [w, h, d]"
    using shape_eq3 [OF n3] by blast
  have pad: "\<And>p q. np_pad img [p, q] = Inl ValueError"
    using n3 by (simp add: np_pad_def)
  show ?thesis
  proof (cases "sample ''label''")
    case None
    then show ?thesis using img by (simp add: CenterCrop_def dict_get_def)
  next
    case (Some lbl)
    show ?thesis
    proof (cases "2 \<le> ndim lbl")
      case False
      then have "ndim lbl = 0 \<or> ndim lbl = 1" by auto
      then have "\<exists>e. CenterCrop (o0, o1) sample = Inl e"
        using img Some pad
        by (auto simp: CenterCrop_def dict_get_def shape_at_def ndim_def Let_def)
      with False Some show ?thesis by auto
    next
      case True
      then obtain n0 n1 rest where sl: "shape lbl = n0 # n1 # rest"
        using shape_ge2 by blast
      show ?thesis
      proof (cases "int n0 \<le> o0 \<or> int n1 \<le> o1")
        case c: True
        then have "CenterCrop (o0, o1) sample = Inl ValueError"
          using img Some pad sl
          by (auto simp: CenterCrop_def dict_get_def shape_at_def Let_def)
        with c Some sl True show ?thesis by auto
      next
        case c: False
        have "\<exists>r. CenterCrop (o0, o1) sample = Inr r"
          using img Some sl si c
          by (simp add: CenterCrop_def dict_get_def shape_at_def Let_def unpack3_def
              getitem_two_slices)
        with c Some sl True show ?thesis by auto
      qed
    qed
  qed
qed

lemma slice_start_in: "0 \<le> x \<Longrightarrow> x \<le> int n \<Longrightarrow> slice_start n (Some x) = nat x"
  by (auto simp: slice_start_def slice_norm_def)

lemma slice_len_in:
  "0 \<le> x \<Longrightarrow> 0 \<le> p \<Longrightarrow> x + p \<le> int n \<Longrightarrow> slice_len n (Some x) (Some (x + p)) = nat p"
  by (auto simp: slice_len_def slice_start_def slice_stop_def slice_norm_def)

lemma slice_len_full: "slice_len n None None = n"
  by (simp add: slice_len_def slice_start_def slice_stop_def)

lemma bind_err_eq_Inr: "bind_err m f = Inr y \<longleftrightarrow> (\<exists>x. m = Inr x \<and> f x = Inr y)"
  by (cases m) auto

lemma randint_range:
  "low < high \<Longrightarrow> \<exists>r. randint low high u = Inr r \<and> low \<le> r \<and> r < high"
proof -
  assume a: "low < high"
  then have "0 \<le> u mod (high - low)" "u mod (high - low) < high - low"
    by simp_all
  then have "low \<le> low + u mod (high - low)" "low + u mod (high - low) < high"
    by linarith+
  with a show ?thesis by (simp add: randint_def)
qed

lemma randint_onto: "low \<le> r \<Longrightarrow> r < high \<Longrightarrow> randint low high (r - low) = Inr r"
  by (simp add: randint_def)

lemma getitem_crop:
  assumes "shape a = [n0, n1, n2]"
    and "0 \<le> w1" "0 \<le> p" "w1 + p \<le> int n1"
    and "0 \<le> h1" "0 \<le> q" "h1 + q \<le> int n2"
  shows "\<exists>c. getitem a (crop_slices (o0, p, q) w1 h1) = Inr c
      \<and> shape c = [n0, nat p, nat q]
      \<and> (\<forall>i j k. elem c [i, j, k] = elem a [i, nat w1 + j, nat h1 + k])"
proof -
  have "w1 \<le> int n1" "h1 \<le> int n2" using assms by auto
  then show ?thesis
    using assms
    by (simp add: getitem_def crop_slices_def slice_len_full slice_len_in slice_start_in
        slice_start_def [of _ None])
qed

lemma RandomCrop_pad_sdf:
  "RandomCrop_pad (o0, o1, o2) with_sdf sample = Inr (img, lbl, sdf)
     \<Longrightarrow> (sdf \<noteq> None) = with_sdf"
  unfolding RandomCrop_pad_def
  by (auto simp: Let_def bind_err_eq_Inr split: if_splits option.splits)

text \<open>
  Claim C3. Let the padding step leave an image of three axes with extents
  \<open>(d, w, h)\<close>. If \<open>w - output_size[1] \<le> 0\<close> or \<open>h - output_size[2] \<le> 0\<close>
  RandomCrop raises the \<^verbatim>\<open>ValueError\<close> of \<^verbatim>\<open>randint\<close>. Otherwise, for
  non-negative output extents and a label (and an sdf, when \<open>with_sdf\<close> is set)
  with the image's extents on axes 1 and 2, the offsets \<open>w1\<close> and \<open>h1\<close> are the
  draws of \<^verbatim>\<open>randint\<close> from \<open>[0, w - output_size[1])\<close> and
  \<open>[0, h - output_size[2])\<close>, and image, label and sdf are all sliced with these
  same offsets: axis 0 is kept whole, axes 1 and 2 get the extents
  \<open>output_size[1]\<close> and \<open>output_size[2]\<close>, and the element at \<open>(i, j, k)\<close> of each
  result is the element at \<open>(i, w1 + j, h1 + k)\<close> of the padded array. Without
  \<open>with_sdf\<close> the result has no sdf.
\<close>

theorem RandomCrop_after_padding:
  assumes pad: "RandomCrop_pad (o0, o1, o2) with_sdf sample = Inr (img, lbl, sdf)"
    and si: "shape img = [d, w, h]"
  shows "(int w - o1 \<le> 0 \<or> int h - o2 \<le> 0 \<longrightarrow>
            RandomCrop (o0, o1, o2) with_sdf u1 u2 sample = Inl ValueError)
     \<and> (0 < int w - o1 \<and> 0 < int h - o2 \<and> 0 \<le> o1 \<and> 0 \<le> o2
          \<and> shape lbl = [dl, w, h] \<and> (\<forall>s. sdf = Some s \<longrightarrow> (\<exists>ds. shape s = [ds, w, h]))
        \<longrightarrow>
          (\<exists>w1 h1 r.
              randint 0 (int w - o1) u1 = Inr w1 \<and> 0 \<le> w1 \<and> w1 < int w - o1
            \<and> randint 0 (int h - o2) u2 = Inr h1 \<and> 0 \<le> h1 \<and> h1 < int h - o2
            \<and> RandomCrop (o0, o1, o2) with_sdf u1 u2 sample = Inr r
            \<and> (\<exists>c. r ''image'' = Some c \<and> shape c = [d, nat o1, nat o2]
                  \<and> (\<forall>i j k. elem c [i, j, k] = elem img [i, nat w1 + j, nat h1 + k]))
            \<and> (\<exists>c. r ''label'' = Some c \<and> shape c = [dl, nat o1, nat o2]
                  \<and> (\<forall>i j k. elem c [i, j, k] = elem lbl [i, nat w1 + j, nat h1 + k]))
            \<and> (with_sdf \<longrightarrow>
                 (\<exists>s c. sdf = Some s \<and> r ''sdf'' = Some c
                    \<and> shape c = [shape s ! 0, nat o1, nat o2]
                    \<and> (\<forall>i j k. elem c [i, j, k] = elem s [i, nat w1 + j, nat h1 + k])))
            \<and> (\<not> with_sdf \<longrightarrow> r ''sdf'' = None)))"
proof (intro conjI impI)
  assume "int w - o1 \<le> 0 \<or> int h - o2 \<le> 0"
  then show "RandomCrop (o0, o1, o2) with_sdf u1 u2 sample = Inl ValueError"
    using pad si
    by (auto simp: RandomCrop_def RandomCrop_crop_def unpack3_def randint_def)
next
  assume a: "0 < int w - o1 \<and> 0 < int h - o2 \<and> 0 \<le> o1 \<and> 0 \<le> o2
          \<and> shape lbl = [dl, w, h] \<and> (\<forall>s. sdf = Some s \<longrightarrow> (\<exists>ds. shape s = [ds, w, h]))"
  then have pos: "0 < int w - o1 \<and> 0 < int h - o2" and o1: "0 \<le> o1" and o2: "0 \<le> o2"
    and sl: "shape lbl = [dl, w, h]"
    and ss: "\<forall>s. sdf = Some s \<longrightarrow> (\<exists>ds. shape s = [ds, w, h])"
    by blast+
  from randint_range [of 0 "int w - o1" u1] pos
  obtain w1 where w1: "randint 0 (int w - o1) u1 = Inr w1" "0 \<le> w1" "w1 < int w - o1"
    by auto
  from randint_range [of 0 "int h - o2" u2] pos
  obtain h1 where h1: "randint 0 (int h - o2) u2 = Inr h1" "0 \<le> h1" "h1 < int h - o2"
    by auto
  have bw: "w1 + o1 \<le> int w" and bh: "h1 + o2 \<le> int h"
    using w1(3) h1(3) by auto
  from getitem_crop [OF si w1(2) o1 bw h1(2) o2 bh, of o0]
  obtain ci where ci: "getitem img (crop_slices (o0, o1, o2) w1 h1) = Inr ci"
    "shape ci = [d, nat o1, nat o2]"
    "\<forall>i j k. elem ci [i, j, k] = elem img [i, nat w1 + j, nat h1 + k]"
    by blast
  from getitem_crop [OF sl w1(2) o1 bw h1(2) o2 bh, of o0]
  obtain cl where cl: "getitem lbl (crop_slices (o0, o1, o2) w1 h1) = Inr cl"
    "shape cl = [dl, nat o1, nat o2]"
    "\<forall>i j k. elem cl [i, j, k] = elem lbl [i, nat w1 + j, nat h1 + k]"
    by blast
  have sdf_iff: "(sdf \<noteq> None) = with_sdf"
    using pad by (rule RandomCrop_pad_sdf)
  have crop: "RandomCrop (o0, o1, o2) with_sdf u1 u2 sample =
      (case sdf of
         Some s \<Rightarrow> bind_err (getitem s (crop_slices (o0, o1, o2) w1 h1))
            (\<lambda>s. Inr [''image'' \<mapsto> ci, ''label'' \<mapsto> cl, ''sdf'' \<mapsto> s])
       | None \<Rightarrow> Inr [''image'' \<mapsto> ci, ''label'' \<mapsto> cl])"
    using pad si w1(1) h1(1) ci(1) cl(1)
    by (simp add: RandomCrop_def RandomCrop_crop_def unpack3_def)
  show "\<exists>w1 h1 r.
              randint 0 (int w - o1) u1 = Inr w1 \<and> 0 \<le> w1 \<and> w1 < int w - o1
            \<and> randint 0 (int h - o2) u2 = Inr h1 \<and> 0 \<le> h1 \<and> h1 < int h - o2
            \<and> RandomCrop (o0, o1, o2) with_sdf u1 u2 sample = Inr r
            \<and> (\<exists>c. r ''image'' = Some c \<and> shape c = [d, nat o1, nat o2]
                  \<and> (\<forall>i j k. elem c [i, j, k] = elem img [i, nat w1 + j, nat h1 + k]))
            \<and> (\<exists>c. r ''label'' = Some c \<and> shape c = [dl, nat o1, nat o2]
                  \<and> (\<forall>i j k. elem c [i, j, k] = elem lbl [i, nat w1 + j, nat h1 + k]))
            \<and> (with_sdf \<longrightarrow>
                 (\<exists>s c. sdf = Some s \<and> r ''sdf'' = Some c
                    \<and> shape c = [shape s ! 0, nat o1, nat o2]
                    \<and> (\<forall>i j k. elem c [i, j, k] = elem s [i, nat w1 + j, nat h1 + k])))
            \<and> (\<not> with_sdf \<longrightarrow> r ''sdf'' = None)"
  proof (cases sdf)
    case None
    then have nw: "\<not> with_sdf" using sdf_iff by simp
    have "RandomCrop (o0, o1, o2) with_sdf u1 u2 sample = Inr [''image'' \<mapsto> ci, ''label'' \<mapsto> cl]"
      using crop None by simp
    with w1 h1 ci(2,3) cl(2,3) nw show ?thesis
      by (intro exI [of _ w1] exI [of _ h1] exI [of _ "[''image'' \<mapsto> ci, ''label'' \<mapsto> cl]"])
        simp
  next
    case (Some s)
    then have yw: with_sdf using sdf_iff by simp
    obtain ds where sd: "shape s = [ds, w, h]" using ss Some by blast
    from getitem_crop [OF sd w1(2) o1 bw h1(2) o2 bh, of o0]
    obtain cs where cs: "getitem s (crop_slices (o0, o1, o2) w1 h1) = Inr cs"
      "shape cs = [ds, nat o1, nat o2]"
      "\<forall>i j k. elem cs [i, j, k] = elem s [i, nat w1 + j, nat h1 + k]"
      by blast
    have "RandomCrop (o0, o1, o2) with_sdf u1 u2 sample =
        Inr [''image'' \<mapsto> ci, ''label'' \<mapsto> cl, ''sdf'' \<mapsto> cs]"
      using crop Some cs(1) by simp
    with w1 h1 ci(2,3) cl(2,3) cs(2,3) yw Some sd show ?thesis
      by (intro exI [of _ w1] exI [of _ h1]
          exI [of _ "[''image'' \<mapsto> ci, ''label'' \<mapsto> cl, ''sdf'' \<mapsto> cs]"]) simp
  qed
qed

text \<open>
  An image smaller than its label makes \<^verbatim>\<open>randint\<close> raise; a sample of equal
  shapes with an sdf is cropped at the drawn offsets \<open>(1, 0)\<close>.
\<close>

theorem RandomCrop_after_padding_witness:
  "RandomCrop_pad (0, 3, 3) False mismatched_sample
      = Inr (marker_array [1, 2, 2], marker_array [1, 4, 4], None)
   \<and> RandomCrop (0, 3, 3) False 5 3 mismatched_sample = Inl ValueError
   \<and> RandomCrop_pad (0, 2, 2) True sdf_sample
      = Inr (marker_array [1, 4, 4], marker_array [1, 4, 4], Some (marker_array [1, 4, 4]))
   \<and> randint 0 (int 4 - 2) 5 = Inr 1 \<and> randint 0 (int 4 - 2) 2 = Inr 0
   \<and> (\<exists>r c. RandomCrop (0, 2, 2) True 5 2 sdf_sample = Inr r
         \<and> r ''sdf'' = Some c \<and> shape c = [1, 2, 2] \<and> elem c [0, 1, 1] = 1021)"
proof -
  have p1: "RandomCrop_pad (0, 3, 3) False mismatched_sample
      = Inr (marker_array [1, 2, 2], marker_array [1, 4, 4], None)"
    by (simp add: RandomCrop_pad_def mismatched_sample_def dict_get_def shape_at_def
        marker_array_def)
  have s1: "shape (marker_array [1, 2, 2]) = [1, 2, 2]"
    by (simp add: marker_array_def)
  have f: "RandomCrop (0, 3, 3) False 5 3 mismatched_sample = Inl ValueError"
    using RandomCrop_after_padding [OF p1 s1, of 5 3] by simp
  have p2: "RandomCrop_pad (0, 2, 2) True sdf_sample
      = Inr (marker_array [1, 4, 4], marker_array [1, 4, 4], Some (marker_array [1, 4, 4]))"
    by (simp add: RandomCrop_pad_def sdf_sample_def dict_get_def shape_at_def
        marker_array_def)
  have s2: "shape (marker_array [1, 4, 4]) = [1, 4, 4]"
    by (simp add: marker_array_def)
  have r1: "randint 0 (int 4 - 2) 5 = Inr 1" and r2: "randint 0 (int 4 - 2) 2 = Inr 0"
    by (simp_all add: randint_def)
  have e: "elem (marker_array [1, 4, 4]) [0, nat 1 + 1, nat 0 + 1] = 1021"
    by (simp add: marker_array_def)
  from RandomCrop_after_padding [OF p2 s2, of 5 2 1] s2 r1 r2 e
  have "\<exists>r c. RandomCrop (0, 2, 2) True 5 2 sdf_sample = Inr r
         \<and> r ''sdf'' = Some c \<and> shape c = [1, 2, 2] \<and> elem c [0, 1, 1] = 1021"
    by (auto simp del: fun_upd_apply)
  with p1 f p2 r1 r2 show ?thesis by blast
qed

text \<open>
  Claim C2. CenterCrop is to return image and label with exactly the extents of
  \<open>output_size\<close>, padding the sample first when it is too small. The code does not
  do so: for a sample of shape \<open>(2, 2, 1)\<close> and \<open>output_size = (4, 4)\<close> the padding
  branch raises \<^verbatim>\<open>ValueError\<close> (two pad pairs for three axes), and for a sample
  of shape \<open>(2, 2)\<close>, which the two pad pairs fit, the unpacking of the shape into
  three values raises.
\<close>

theorem CenterCrop_padding_raises:
  "CenterCrop (4, 4) (example_sample [2, 2, 1]) = Inl ValueError
   \<and> CenterCrop (4, 4) (example_sample [2, 2]) = Inl ValueError"
  by (simp add: CenterCrop_def example_sample_def marker_array_def dict_get_def
      shape_at_def np_pad_def ndim_def unpack3_def)

text \<open>
  A sample of shape \<open>(2, 2, 1)\<close> is too small for \<open>output_size = (4, 4)\<close> and makes
  CenterCrop raise; one of shape \<open>(5, 5, 1)\<close> is cropped.
\<close>

theorem CenterCrop_returns_iff_witness:
  "example_sample [2, 2, 1] ''image'' = Some (marker_array [2, 2, 1])
   \<and> ndim (marker_array [2, 2, 1]) = 3
   \<and> example_sample [2, 2, 1] ''label'' = Some (marker_array [2, 2, 1])
   \<and> 2 \<le> ndim (marker_array [2, 2, 1])
   \<and> int (shape (marker_array [2, 2, 1]) ! 0) \<le> 4
   \<and> CenterCrop (4, 4) (example_sample [2, 2, 1]) = Inl ValueError
   \<and> example_sample [5, 5, 1] ''image'' = Some (marker_array [5, 5, 1])
   \<and> ndim (marker_array [5, 5, 1]) = 3
   \<and> example_sample [5, 5, 1] ''label'' = Some (marker_array [5, 5, 1])
   \<and> 4 < int (shape (marker_array [5, 5, 1]) ! 0)
   \<and> 4 < int (shape (marker_array [5, 5, 1]) ! 1)
   \<and> (\<exists>r. CenterCrop (4, 4) (example_sample [5, 5, 1]) = Inr r)"
proof -
  have a: "example_sample [2, 2, 1] ''image'' = Some (marker_array [2, 2, 1])"
    "example_sample [2, 2, 1] ''label'' = Some (marker_array [2, 2, 1])"
    "example_sample [5, 5, 1] ''image'' = Some (marker_array [5, 5, 1])"
    "example_sample [5, 5, 1] ''label'' = Some (marker_array [5, 5, 1])"
    by (simp_all add: example_sample_def)
  have n: "ndim (marker_array [2, 2, 1]) = 3" "ndim (marker_array [5, 5, 1]) = 3"
    by (simp_all add: ndim_def marker_array_def)
  have s: "int (shape (marker_array [2, 2, 1]) ! 0) \<le> 4"
    "4 < int (shape (marker_array [5, 5, 1]) ! 0)"
    "4 < int (shape (marker_array [5, 5, 1]) ! 1)"
    by (simp_all add: marker_array_def)
  have f: "CenterCrop (4, 4) (example_sample [2, 2, 1]) = Inl ValueError"
    using CenterCrop_returns_iff [of "example_sample [2, 2, 1]" "marker_array [2, 2, 1]" 4 4, OF a(1) n(1)] a(2) n(1) s(1) by simp
  have g: "\<exists>r. CenterCrop (4, 4) (example_sample [5, 5, 1]) = Inr r"
    using CenterCrop_returns_iff [of "example_sample [5, 5, 1]" "marker_array [5, 5, 1]" 4 4, OF a(3) n(2)] a(4) n(2) s(2,3) by simp
  show ?thesis using a n s f g by simp
qed

section \<open>Properties of RandomRotFlip\<close>

lemma amap_rot90: "rot90_12 (amap f m) = amap f (rot90_12 m)"
  by (auto simp: rot90_12_def amap_def fun_eq_iff split: list.splits)

lemma amap_flip: "flip_axis ax (amap f m) = amap f (flip_axis ax m)"
  by (auto simp: flip_axis_def amap_def fun_eq_iff)

lemma amap_rot90_pow: "(rot90_12 ^^ k) (amap f m) = amap f ((rot90_12 ^^ k) m)"
  by (induction k) (simp_all add: amap_rot90)

lemma ndim_rot90: "ndim (rot90_12 m) = ndim m"
  by (auto simp: rot90_12_def ndim_def split: list.splits)

lemma ndim_rot90_pow: "ndim ((rot90_12 ^^ k) m) = ndim m"
  by (induction k) (simp_all add: ndim_rot90)

lemma ndim_amap: "ndim (amap f m) = ndim m"
  by (simp add: ndim_def amap_def)

lemma rot_loop_both:
  "3 \<le> ndim img \<Longrightarrow> 3 \<le> ndim lbl \<Longrightarrow>
   rot_loop k img lbl = Inr ((rot90_12 ^^ k) img, (rot90_12 ^^ k) lbl)"
proof (induction k arbitrary: img lbl)
  case 0
  then show ?case by simp
next
  case (Suc k)
  have "rot_loop (Suc k) img lbl = rot_loop k (rot90_12 img) (rot90_12 lbl)"
    using Suc.prems by (simp add: np_rot90_def)
  also have "\<dots> = Inr ((rot90_12 ^^ k) (rot90_12 img), (rot90_12 ^^ k) (rot90_12 lbl))"
    using Suc.prems by (intro Suc.IH) (simp_all add: ndim_rot90)
  finally show ?case by (simp add: funpow_swap1)
qed

lemma rot_loop_result:
  "rot_loop k img lbl = Inr (a, b) \<Longrightarrow> a = (rot90_12 ^^ k) img \<and> b = (rot90_12 ^^ k) lbl"
proof (induction k arbitrary: img lbl)
  case 0
  then show ?case by simp
next
  case (Suc k)
  from Suc.prems have "rot_loop k (rot90_12 img) (rot90_12 lbl) = Inr (a, b)"
    by (auto simp: bind_err_eq_Inr np_rot90_def split: if_splits)
  from Suc.IH [OF this] show ?case by (simp add: funpow_swap1)
qed

text \<open>
  Claim C4. In one call RandomRotFlip draws one rotation count \<open>k\<close> from
  \<open>{0, 1, 2, 3}\<close> and one flip axis from \<open>{0, 1}\<close>. Whenever it returns, the image
  of the result is the input image rotated \<open>k\<close> times by 90 degrees about axes
  \<open>(1, 2)\<close> and then flipped along that axis, and the label of the result is the
  input label under the same \<open>k\<close> rotations and the same flip. It returns for every
  sample whose image and label have at least three axes. The two arrays are
  transformed consistently: when the image is the label under an elementwise
  marking \<open>f\<close>, the returned image is the returned label under \<open>f\<close>.
\<close>

theorem RandomRotFlip_same_transform:
  "\<exists>k axis. randint 0 4 uk = Inr (int k) \<and> k \<in> {0, 1, 2, 3}
     \<and> randint 0 2 ua = Inr (int axis) \<and> axis \<in> {0, 1}
     \<and> (\<forall>r. RandomRotFlip uk ua sample = Inr r \<longrightarrow>
           (\<exists>img lbl. sample ''image'' = Some img \<and> sample ''label'' = Some lbl
              \<and> r = [''image'' \<mapsto> flip_axis axis ((rot90_12 ^^ k) img),
                      ''label'' \<mapsto> flip_axis axis ((rot90_12 ^^ k) lbl)]))
     \<and> (\<forall>img lbl. sample ''image'' = Some img \<and> sample ''label'' = Some lbl
              \<and> 3 \<le> ndim img \<and> 3 \<le> ndim lbl \<longrightarrow>
            RandomRotFlip uk ua sample =
              Inr [''image'' \<mapsto> flip_axis axis ((rot90_12 ^^ k) img),
                   ''label'' \<mapsto> flip_axis axis ((rot90_12 ^^ k) lbl)])
     \<and> (\<forall>(f :: real \<Rightarrow> real) img lbl. img = amap f lbl \<longrightarrow>
            flip_axis axis ((rot90_12 ^^ k) img)
              = amap f (flip_axis axis ((rot90_12 ^^ k) lbl)))"
proof -
  define k where "k = nat (uk mod 4)"
  define axis where "axis = nat (ua mod 2)"
  have k: "randint 0 4 uk = Inr (int k)" "k \<in> {0, 1, 2, 3}"
    unfolding k_def randint_def by auto
  have a: "randint 0 2 ua = Inr (int axis)" "axis \<in> {0, 1}"
    unfolding axis_def randint_def by auto
  have g: "\<forall>r. RandomRotFlip uk ua sample = Inr r \<longrightarrow>
           (\<exists>img lbl. sample ''image'' = Some img \<and> sample ''label'' = Some lbl
              \<and> r = [''image'' \<mapsto> flip_axis axis ((rot90_12 ^^ k) img),
                      ''label'' \<mapsto> flip_axis axis ((rot90_12 ^^ k) lbl)])"
  proof (intro allI impI)
    fix r
    assume "RandomRotFlip uk ua sample = Inr r"
    then obtain img lbl ri rl fi fl where
      s: "sample ''image'' = Some img" "sample ''label'' = Some lbl"
      and l: "rot_loop k img lbl = Inr (ri, rl)"
      and f: "np_flip ri axis = Inr fi" "np_flip rl axis = Inr fl"
      and r: "r = [''image'' \<mapsto> fi, ''label'' \<mapsto> fl]"
      using k(1) a(1)
      by (auto simp: RandomRotFlip_def dict_get_def bind_err_eq_Inr split: option.splits)
    from rot_loop_result [OF l] have "ri = (rot90_12 ^^ k) img" "rl = (rot90_12 ^^ k) lbl"
      by simp_all
    moreover from f have "fi = flip_axis axis ri" "fl = flip_axis axis rl"
      by (auto simp: np_flip_def split: if_splits)
    ultimately show "\<exists>img lbl. sample ''image'' = Some img \<and> sample ''label'' = Some lbl
              \<and> r = [''image'' \<mapsto> flip_axis axis ((rot90_12 ^^ k) img),
                      ''label'' \<mapsto> flip_axis axis ((rot90_12 ^^ k) lbl)]"
      using s r by blast
  qed
  have t: "\<forall>img lbl. sample ''image'' = Some img \<and> sample ''label'' = Some lbl
              \<and> 3 \<le> ndim img \<and> 3 \<le> ndim lbl \<longrightarrow>
            RandomRotFlip uk ua sample =
              Inr [''image'' \<mapsto> flip_axis axis ((rot90_12 ^^ k) img),
                   ''label'' \<mapsto> flip_axis axis ((rot90_12 ^^ k) lbl)]"
  proof (intro allI impI)
    fix img lbl
    assume h: "sample ''image'' = Some img \<and> sample ''label'' = Some lbl
              \<and> 3 \<le> ndim img \<and> 3 \<le> ndim lbl"
    then have ni: "3 \<le> ndim img" and nl: "3 \<le> ndim lbl" by blast+
    have fi: "np_flip ((rot90_12 ^^ k) img) axis = Inr (flip_axis axis ((rot90_12 ^^ k) img))"
      using a(2) ni by (auto simp: np_flip_def ndim_rot90_pow)
    have fl: "np_flip ((rot90_12 ^^ k) lbl) axis = Inr (flip_axis axis ((rot90_12 ^^ k) lbl))"
      using a(2) nl by (auto simp: np_flip_def ndim_rot90_pow)
    show "RandomRotFlip uk ua sample =
            Inr [''image'' \<mapsto> flip_axis axis ((rot90_12 ^^ k) img),
                 ''label'' \<mapsto> flip_axis axis ((rot90_12 ^^ k) lbl)]"
      using h k(1) a(1) fi fl rot_loop_both [OF ni nl, of k]
      by (simp add: RandomRotFlip_def dict_get_def)
  qed
  have m: "\<forall>(f :: real \<Rightarrow> real) img lbl. img = amap f lbl \<longrightarrow>
              flip_axis axis ((rot90_12 ^^ k) img)
                = amap f (flip_axis axis ((rot90_12 ^^ k) lbl))"
    by (simp add: amap_rot90_pow amap_flip)
  show ?thesis using k a g t m by blast
qed

text \<open>
  With the draws \<open>k = 1\<close> and \<open>axis = 1\<close> a sample of shape \<open>(2, 2, 2)\<close> is returned
  with the element \<open>(0, 1, 0)\<close> of the input at \<open>(0, 0, 1)\<close>, in image and label.
\<close>

theorem RandomRotFlip_same_transform_witness:
  "example_sample [2, 2, 2] ''image'' = Some (marker_array [2, 2, 2])
   \<and> example_sample [2, 2, 2] ''label'' = Some (marker_array [2, 2, 2])
   \<and> 3 \<le> ndim (marker_array [2, 2, 2])
   \<and> marker_array [2, 2, 2] = amap (\<lambda>x. x) (marker_array [2, 2, 2])
   \<and> randint 0 4 5 = Inr 1 \<and> randint 0 2 3 = Inr 1
   \<and> (\<exists>r ci cl. RandomRotFlip 5 3 (example_sample [2, 2, 2]) = Inr r
         \<and> r ''image'' = Some ci \<and> r ''label'' = Some cl
         \<and> elem ci [0, 0, 1] = 1010 \<and> elem cl [0, 0, 1] = 1010
         \<and> ci = amap (\<lambda>x. x) cl)"
proof -
  have s: "example_sample [2, 2, 2] ''image'' = Some (marker_array [2, 2, 2])"
    "example_sample [2, 2, 2] ''label'' = Some (marker_array [2, 2, 2])"
    by (simp_all add: example_sample_def)
  have n: "3 \<le> ndim (marker_array [2, 2, 2])"
    by (simp add: ndim_def marker_array_def)
  have i: "marker_array [2, 2, 2] = amap (\<lambda>x. x) (marker_array [2, 2, 2])"
    by (simp add: amap_def marker_array_def)
  have d: "randint 0 4 5 = Inr 1" "randint 0 2 3 = Inr 1"
    by (simp_all add: randint_def)
  have e: "elem (flip_axis 1 ((rot90_12 ^^ 1) (marker_array [2, 2, 2]))) [0, 0, 1] = 1010"
    by (simp add: flip_axis_def rot90_12_def marker_array_def)
  from RandomRotFlip_same_transform [of 5 3 "example_sample [2, 2, 2]"]
  obtain k axis where w: "randint 0 4 5 = Inr (int k)" "randint 0 2 3 = Inr (int axis)"
    "\<forall>img lbl. example_sample [2, 2, 2] ''image'' = Some img
        \<and> example_sample [2, 2, 2] ''label'' = Some lbl
        \<and> 3 \<le> ndim img \<and> 3 \<le> ndim lbl \<longrightarrow>
      RandomRotFlip 5 3 (example_sample [2, 2, 2]) =
        Inr [''image'' \<mapsto> flip_axis axis ((rot90_12 ^^ k) img),
             ''label'' \<mapsto> flip_axis axis ((rot90_12 ^^ k) lbl)]"
    "\<forall>(f :: real \<Rightarrow> real) img lbl. img = amap f lbl \<longrightarrow>
        flip_axis axis ((rot90_12 ^^ k) img)
          = amap f (flip_axis axis ((rot90_12 ^^ k) lbl))"
    by (elim exE conjE) (rule that, assumption+)
  from w(1,2) d have ka: "k = 1" "axis = 1" by simp_all
  have r: "RandomRotFlip 5 3 (example_sample [2, 2, 2]) =
        Inr [''image'' \<mapsto> flip_axis 1 ((rot90_12 ^^ 1) (marker_array [2, 2, 2])),
             ''label'' \<mapsto> flip_axis 1 ((rot90_12 ^^ 1) (marker_array [2, 2, 2]))]"
    using w(3) [rule_format, of "marker_array [2, 2, 2]" "marker_array [2, 2, 2]"] s n
    unfolding ka by (simp only: simp_thms)
  have c: "flip_axis 1 ((rot90_12 ^^ 1) (marker_array [2, 2, 2]))
      = amap (\<lambda>x. x) (flip_axis 1 ((rot90_12 ^^ 1) (marker_array [2, 2, 2])))"
    using w(4) [rule_format, of "marker_array [2, 2, 2]" "\<lambda>x. x" "marker_array [2, 2, 2]"] i
    unfolding ka by (simp only: simp_thms)
  have "\<exists>r ci cl. RandomRotFlip 5 3 (example_sample [2, 2, 2]) = Inr r
         \<and> r ''image'' = Some ci \<and> r ''label'' = Some cl
         \<and> elem ci [0, 0, 1] = 1010 \<and> elem cl [0, 0, 1] = 1010
         \<and> ci = amap (\<lambda>x. x) cl"
  proof (intro exI conjI)
    show "RandomRotFlip 5 3 (example_sample [2, 2, 2]) =
        Inr [''image'' \<mapsto> flip_axis 1 ((rot90_12 ^^ 1) (marker_array [2, 2, 2])),
             ''label'' \<mapsto> flip_axis 1 ((rot90_12 ^^ 1) (marker_array [2, 2, 2]))]"
      by (rule r)
    show "[''image'' \<mapsto> flip_axis 1 ((rot90_12 ^^ 1) (marker_array [2, 2, 2])),
           ''label'' \<mapsto> flip_axis 1 ((rot90_12 ^^ 1) (marker_array [2, 2, 2]))] ''image''
        = Some (flip_axis 1 ((rot90_12 ^^ 1) (marker_array [2, 2, 2])))"
      by (simp del: funpow.simps)
    show "[''image'' \<mapsto> flip_axis 1 ((rot90_12 ^^ 1) (marker_array [2, 2, 2])),
           ''label'' \<mapsto> flip_axis 1 ((rot90_12 ^^ 1) (marker_array [2, 2, 2]))] ''label''
        = Some (flip_axis 1 ((rot90_12 ^^ 1) (marker_array [2, 2, 2])))"
      by (simp del: funpow.simps)
    show "elem (flip_axis 1 ((rot90_12 ^^ 1) (marker_array [2, 2, 2]))) [0, 0, 1] = 1010"
      "elem (flip_axis 1 ((rot90_12 ^^ 1) (marker_array [2, 2, 2]))) [0, 0, 1] = 1010"
      by (rule e)+
    show "flip_axis 1 ((rot90_12 ^^ 1) (marker_array [2, 2, 2]))
      = amap (\<lambda>x. x) (flip_axis 1 ((rot90_12 ^^ 1) (marker_array [2, 2, 2])))"
      by (rule c)
  qed
  with s n i d show ?thesis by (intro conjI)
qed

section \<open>Properties of CreateOnehotLabel\<close>

lemma broadcastable_refl: "broadcastable sh sh"
  by (induction sh) simp_all

lemma setitem_first_same_shape:
  assumes "shape a = n # [d0, d1, d2]" and "shape v = [d0, d1, d2]"
  shows "setitem_first a i v =
     Inr (a\<lparr>elem := (\<lambda>idx. case idx of
                [] \<Rightarrow> elem a idx
              | c # rest \<Rightarrow> if c = i then elem v (bindex [d0, d1, d2] rest) else elem a idx)\<rparr>)"
proof -
  have nv: "ndim v = Suc (Suc (Suc 0))"
    using assms(2) by (simp add: ndim_def)
  show ?thesis
    using assms broadcastable_refl [of "[d2, d1, d0]"]
    by (simp add: setitem_first_def Let_def nv cong: list.case_cong if_cong)
qed

lemma bindex_in_range:
  "i < d0 \<Longrightarrow> j < d1 \<Longrightarrow> k < d2 \<Longrightarrow> bindex [d0, d1, d2] [i, j, k] = [i, j, k]"
  by (auto simp: bindex_def)

lemma onehot_loop_result:
  assumes sl: "shape lbl = [d0, d1, d2]"
  shows "shape oh = n # [d0, d1, d2] \<Longrightarrow>
    \<exists>oh'. onehot_loop lbl cs oh = Inr oh' \<and> shape oh' = shape oh
      \<and> (\<forall>c i j k. i < d0 \<and> j < d1 \<and> k < d2 \<longrightarrow>
            elem oh' [c, i, j, k] =
              (if c \<in> set cs then (if elem lbl [i, j, k] = real c then 1 else 0)
               else elem oh [c, i, j, k]))"
proof (induction cs arbitrary: oh)
  case Nil
  then show ?case by simp
next
  case (Cons x cs)
  define v where "v = astype_float (np_eq lbl (int x))"
  have sv: "shape v = [d0, d1, d2]"
    by (simp add: v_def astype_float_def np_eq_def amap_def sl)
  define oh1 where "oh1 = oh\<lparr>elem := (\<lambda>idx. case idx of
                [] \<Rightarrow> elem oh idx
              | c # rest \<Rightarrow> if c = x then elem v (bindex [d0, d1, d2] rest) else elem oh idx)\<rparr>"
  have st: "setitem_first oh x v = Inr oh1"
    unfolding oh1_def using Cons.prems sv by (rule setitem_first_same_shape)
  have s1: "shape oh1 = n # [d0, d1, d2]"
    using Cons.prems by (simp add: oh1_def)
  from Cons.IH [OF s1]
  obtain oh' where r: "onehot_loop lbl cs oh1 = Inr oh'" "shape oh' = shape oh1"
    "\<forall>c i j k. i < d0 \<and> j < d1 \<and> k < d2 \<longrightarrow>
            elem oh' [c, i, j, k] =
              (if c \<in> set cs then (if elem lbl [i, j, k] = real c then 1 else 0)
               else elem oh1 [c, i, j, k])"
    by blast
  have e1: "\<And>c i j k. i < d0 \<Longrightarrow> j < d1 \<Longrightarrow> k < d2 \<Longrightarrow>
      elem oh1 [c, i, j, k] =
        (if c = x then (if elem lbl [i, j, k] = real x then 1 else 0) else elem oh [c, i, j, k])"
    by (simp add: oh1_def bindex_in_range v_def astype_float_def np_eq_def amap_def)
  have "onehot_loop lbl (x # cs) oh = Inr oh'"
    using st r(1) by (simp add: v_def)
  moreover have "shape oh' = shape oh"
    using r(2) s1 Cons.prems by simp
  moreover have "\<forall>c i j k. i < d0 \<and> j < d1 \<and> k < d2 \<longrightarrow>
            elem oh' [c, i, j, k] =
              (if c \<in> set (x # cs) then (if elem lbl [i, j, k] = real c then 1 else 0)
               else elem oh [c, i, j, k])"
    using r(3) e1 by auto
  ultimately show ?case by blast
qed

lemma CreateOnehotLabel_result:
  assumes img: "sample ''image'' = Some img" and lbl: "sample ''label'' = Some lbl"
    and sl: "shape lbl = [d0, d1, d2]" and c: "0 \<le> num_classes"
  shows "\<exists>oh. CreateOnehotLabel num_classes sample =
            Inr [''image'' \<mapsto> img, ''label'' \<mapsto> lbl, ''onehot_label'' \<mapsto> oh]
       \<and> shape oh = nat num_classes # shape lbl
       \<and> (\<forall>c i j k. c < nat num_classes \<and> i < d0 \<and> j < d1 \<and> k < d2 \<longrightarrow>
             elem oh [c, i, j, k] = (if elem lbl [i, j, k] = real c then 1 else 0))"
proof -
  define z where "z = \<lparr>shape = [nat num_classes, d0, d1, d2], elem = (\<lambda>idx. 0 :: real)\<rparr>"
  have sz: "shape z = nat num_classes # [d0, d1, d2]" by (simp add: z_def)
  from onehot_loop_result [OF sl sz, of "[0..<nat num_classes]"]
  obtain oh where r: "onehot_loop lbl [0..<nat num_classes] z = Inr oh" "shape oh = shape z"
    "\<forall>c i j k. i < d0 \<and> j < d1 \<and> k < d2 \<longrightarrow>
            elem oh [c, i, j, k] =
              (if c \<in> set [0..<nat num_classes]
               then (if elem lbl [i, j, k] = real c then 1 else 0)
               else elem z [c, i, j, k])"
    by blast
  have "CreateOnehotLabel num_classes sample =
            Inr [''image'' \<mapsto> img, ''label'' \<mapsto> lbl, ''onehot_label'' \<mapsto> oh]"
    using img lbl sl c r(1)
    by (simp add: CreateOnehotLabel_def dict_get_def shape_at_def np_zeros_def z_def)
  moreover have "shape oh = nat num_classes # shape lbl"
    using r(2) sz sl by simp
  moreover have "\<forall>c i j k. c < nat num_classes \<and> i < d0 \<and> j < d1 \<and> k < d2 \<longrightarrow>
             elem oh [c, i, j, k] = (if elem lbl [i, j, k] = real c then 1 else 0)"
    using r(3) by simp
  ultimately show ?thesis by blast
qed

text \<open>
  Claim C5. For a sample whose label has three axes and a class count \<open>C \<ge> 0\<close>,
  CreateOnehotLabel returns an \<open>onehot_label\<close> of shape \<open>(C, *label.shape)\<close> whose
  channel \<open>c\<close> is, at every voxel, 1 where the label equals \<open>c\<close> and 0 elsewhere, for
  every \<open>c\<close> in \<open>[0, C)\<close>. At a voxel whose label value is one of the classes
  \<open>0, \<dots>, C - 1\<close> the channels sum to 1.
\<close>

theorem CreateOnehotLabel_indicator:
  assumes img: "sample ''image'' = Some img" and lbl: "sample ''label'' = Some lbl"
    and sl: "shape lbl = [d0, d1, d2]" and c: "0 \<le> num_classes"
  shows "\<exists>r oh. CreateOnehotLabel num_classes sample = Inr r
       \<and> r ''onehot_label'' = Some oh
       \<and> shape oh = nat num_classes # shape lbl
       \<and> (\<forall>c i j k. c < nat num_classes \<and> i < d0 \<and> j < d1 \<and> k < d2 \<longrightarrow>
             elem oh [c, i, j, k] = (if elem lbl [i, j, k] = real c then 1 else 0))
       \<and> (\<forall>i j k. i < d0 \<and> j < d1 \<and> k < d2
               \<and> elem lbl [i, j, k] \<in> real_of_int ` {0..<num_classes} \<longrightarrow>
             (\<Sum>c<nat num_classes. elem oh [c, i, j, k]) = 1)"
proof -
  from CreateOnehotLabel_result [OF img lbl sl c]
  obtain oh where r: "CreateOnehotLabel num_classes sample =
            Inr [''image'' \<mapsto> img, ''label'' \<mapsto> lbl, ''onehot_label'' \<mapsto> oh]"
    "shape oh = nat num_classes # shape lbl"
    "\<forall>c i j k. c < nat num_classes \<and> i < d0 \<and> j < d1 \<and> k < d2 \<longrightarrow>
             elem oh [c, i, j, k] = (if elem lbl [i, j, k] = real c then 1 else 0)"
    by blast
  have s: "\<forall>i j k. i < d0 \<and> j < d1 \<and> k < d2
               \<and> elem lbl [i, j, k] \<in> real_of_int ` {0..<num_classes} \<longrightarrow>
             (\<Sum>c<nat num_classes. elem oh [c, i, j, k]) = 1"
  proof (intro allI impI)
    fix i j k
    assume h: "i < d0 \<and> j < d1 \<and> k < d2
               \<and> elem lbl [i, j, k] \<in> real_of_int ` {0..<num_classes}"
    then obtain v where v: "elem lbl [i, j, k] = real_of_int v" "0 \<le> v" "v < num_classes"
      by auto
    define m where "m = nat v"
    have m: "elem lbl [i, j, k] = real m" "m < nat num_classes"
      using v by (simp_all add: m_def)
    have "(\<Sum>c<nat num_classes. elem oh [c, i, j, k])
        = (\<Sum>c<nat num_classes. if real m = real c then 1 else 0)"
      using r(3) h m(1) by (intro sum.cong) auto
    also have "\<dots> = (\<Sum>c<nat num_classes. if m = c then 1 else 0)"
      by simp
    also have "\<dots> = 1"
      using m(2) by simp
    finally show "(\<Sum>c<nat num_classes. elem oh [c, i, j, k]) = 1" .
  qed
  show ?thesis
    using r s
    by (intro exI [of _ "[''image'' \<mapsto> img, ''label'' \<mapsto> lbl, ''onehot_label'' \<mapsto> oh]"]
        exI [of _ oh]) simp
qed

text \<open>
  With two classes the label above gets two channels; at the voxel \<open>(0, 0, 1)\<close>, of
  class 1, channel 1 is 1, channel 0 is 0 and the channels sum to 1.
\<close>

theorem CreateOnehotLabel_indicator_witness:
  "onehot_sample ''image'' = Some (marker_array [1, 2, 2])
   \<and> onehot_sample ''label'' = Some class_array
   \<and> shape class_array = [1, 2, 2] \<and> (0 :: int) \<le> 2
   \<and> elem class_array [0, 0, 1] \<in> real_of_int ` {0..<2}
   \<and> (\<exists>r oh. CreateOnehotLabel 2 onehot_sample = Inr r
         \<and> r ''onehot_label'' = Some oh \<and> shape oh = [2, 1, 2, 2]
         \<and> elem oh [1, 0, 0, 1] = 1 \<and> elem oh [0, 0, 0, 1] = 0
         \<and> (\<Sum>c<2. elem oh [c, 0, 0, 1]) = 1)"
proof -
  have a: "onehot_sample ''image'' = Some (marker_array [1, 2, 2])"
    "onehot_sample ''label'' = Some class_array"
    by (simp_all add: onehot_sample_def)
  have s: "shape class_array = [1, 2, 2]" by (simp add: class_array_def)
  have e: "elem class_array [0, 0, 1] = 1" by (simp add: class_array_def)
  have m: "elem class_array [0, 0, 1] \<in> real_of_int ` {0..<2}"
    unfolding e by (rule image_eqI [of _ _ 1]) simp_all
  have n: "nat 2 = 2" by simp
  from CreateOnehotLabel_indicator [OF a s, of 2]
  obtain r oh where r: "CreateOnehotLabel 2 onehot_sample = Inr r"
    "r ''onehot_label'' = Some oh" "shape oh = nat 2 # shape class_array"
    "\<forall>c i j k. c < nat 2 \<and> i < 1 \<and> j < 2 \<and> k < 2 \<longrightarrow>
        elem oh [c, i, j, k] = (if elem class_array [i, j, k] = real c then 1 else 0)"
    "\<forall>i j k. i < 1 \<and> j < 2 \<and> k < 2
        \<and> elem class_array [i, j, k] \<in> real_of_int ` {0..<2} \<longrightarrow>
        (\<Sum>c<nat 2. elem oh [c, i, j, k]) = 1"
    by auto
  have "shape oh = [2, 1, 2, 2]" using r(3) s by simp
  moreover have "elem oh [1, 0, 0, 1] = 1"
    using r(4) [rule_format, of 1 0 0 1] e by simp
  moreover have "elem oh [0, 0, 0, 1] = 0"
    using r(4) [rule_format, of 0 0 0 1] e by simp
  moreover have "(\<Sum>c<2. elem oh [c, 0, 0, 1]) = 1"
    using r(5) [rule_format, of 0 0 1] m unfolding n by simp
  ultimately show ?thesis using a s m r(1,2) by auto
qed

text \<open>
  Claim C9 fails: CreateOnehotLabel builds a new dictionary with the three keys
  \<open>image\<close>, \<open>label\<close> and \<open>onehot_label\<close>. The sample above has an sdf, and the sample
  returned for it has none.
\<close>

theorem CreateOnehotLabel_drops_sdf:
  "\<not> isl (CreateOnehotLabel 2 onehot_sample)
   \<and> onehot_sample ''sdf'' = Some (marker_array [1, 2, 2])
   \<and> result_lookup (CreateOnehotLabel 2 onehot_sample) ''sdf'' = None"
proof -
  have a: "onehot_sample ''image'' = Some (marker_array [1, 2, 2])"
    "onehot_sample ''label'' = Some class_array"
    "onehot_sample ''sdf'' = Some (marker_array [1, 2, 2])"
    by (simp_all add: onehot_sample_def)
  have s: "shape class_array = [1, 2, 2]" by (simp add: class_array_def)
  from CreateOnehotLabel_result [OF a(1,2) s, of 2]
  obtain oh where "CreateOnehotLabel 2 onehot_sample =
      Inr [''image'' \<mapsto> marker_array [1, 2, 2], ''label'' \<mapsto> class_array,
           ''onehot_label'' \<mapsto> oh]"
    by auto
  then show ?thesis using a(3) by (simp add: result_lookup_def)
qed

text \<open>
  Claim C9, amended. Whenever CreateOnehotLabel returns, the returned sample has
  exactly the keys \<open>image\<close>, \<open>label\<close> and \<open>onehot_label\<close>; \<open>image\<close> and \<open>label\<close> hold
  the arrays of the input sample, unchanged, and every other key of the input is
  absent from the result.
\<close>

theorem CreateOnehotLabel_keys:
  assumes "CreateOnehotLabel num_classes sample = Inr r"
  shows "dom r = {''image'', ''label'', ''onehot_label''}
     \<and> r ''image'' = sample ''image'' \<and> r ''label'' = sample ''label''
     \<and> (\<forall>key. key \<notin> {''image'', ''label'', ''onehot_label''} \<longrightarrow> r key = None)"
proof -
  from assms obtain img lbl oh where
    s: "sample ''image'' = Some img" "sample ''label'' = Some lbl"
    and r: "r = [''image'' \<mapsto> img, ''label'' \<mapsto> lbl, ''onehot_label'' \<mapsto> oh]"
    by (auto simp: CreateOnehotLabel_def dict_get_def bind_err_eq_Inr split: option.splits)
  show ?thesis unfolding r using s by auto
qed

theorem CreateOnehotLabel_keys_witness:
  "\<exists>r. CreateOnehotLabel 2 onehot_sample = Inr r
     \<and> dom r = {''image'', ''label'', ''onehot_label''}
     \<and> r ''image'' = Some (marker_array [1, 2, 2]) \<and> r ''label'' = Some class_array
     \<and> ''sdf'' \<notin> {''image'', ''label'', ''onehot_label''} \<and> r ''sdf'' = None"
proof -
  have a: "onehot_sample ''image'' = Some (marker_array [1, 2, 2])"
    "onehot_sample ''label'' = Some class_array"
    by (simp_all add: onehot_sample_def)
  have s: "shape class_array = [1, 2, 2]" by (simp add: class_array_def)
  from CreateOnehotLabel_result [OF a s, of 2]
  obtain r where r: "CreateOnehotLabel 2 onehot_sample = Inr r"
    by auto
  have k: "''sdf'' \<notin> {''image'', ''label'', ''onehot_label''}" by simp
  from CreateOnehotLabel_keys [OF r] a k
  have "dom r = {''image'', ''label'', ''onehot_label''}
     \<and> r ''image'' = Some (marker_array [1, 2, 2]) \<and> r ''label'' = Some class_array
     \<and> r ''sdf'' = None"
    by simp
  with r k show ?thesis by blast
qed

section \<open>Properties of RandomNoise\<close>










section \<open>Properties of the dataset\<close>

lemma getitem_at_full:
  assumes "shape a = [n, c, h, w]" and "- int n \<le> idx" and "idx < int n"
  shows "\<exists>r. getitem a [At idx, Slice None None, Slice None None, Slice None None] = Inr r
     \<and> shape r = [c, h, w]
     \<and> (\<forall>i j k. elem r [i, j, k] = elem a [nat (idx mod int n), i, j, k])"
proof -
  have m: "(if idx < 0 then idx + int n else idx) = idx mod int n"
  proof (cases "idx < 0")
    case True
    have "(idx + int n) mod int n = idx + int n"
      using True assms(2) by (intro mod_pos_pos_trivial) auto
    moreover have "(idx + int n) mod int n = idx mod int n" by simp
    ultimately show ?thesis using True by simp
  next
    case False
    then show ?thesis using assms(3) by simp
  qed
  have "nat (if idx < 0 then idx + int n else idx) = nat (idx mod int n)"
    by (simp only: m)
  then show ?thesis
    using assms
    by (simp add: getitem_def slice_len_full slice_start_def)
qed

lemma getitem_at_first_channel:
  assumes "shape a = [n, c, h, w]" and "- int n \<le> idx" and "idx < int n"
  shows "\<exists>r. getitem a [At idx, Slice (Some 0) (Some 1), Slice None None, Slice None None]
         = Inr r
     \<and> shape r = [min 1 c, h, w]
     \<and> (\<forall>i j k. elem r [i, j, k] = elem a [nat (idx mod int n), i, j, k])"
proof -
  have m: "(if idx < 0 then idx + int n else idx) = idx mod int n"
  proof (cases "idx < 0")
    case True
    have "(idx + int n) mod int n = idx + int n"
      using True assms(2) by (intro mod_pos_pos_trivial) auto
    moreover have "(idx + int n) mod int n = idx mod int n" by simp
    ultimately show ?thesis using True by simp
  next
    case False
    then show ?thesis using assms(3) by simp
  qed
  have n: "nat (if idx < 0 then idx + int n else idx) = nat (idx mod int n)"
    by (simp only: m)
  have l: "slice_len c (Some 0) (Some 1) = min 1 c" "slice_start c (Some 0) = 0"
    by (auto simp: slice_len_def slice_start_def slice_stop_def slice_norm_def)
  show ?thesis
    using assms n l
    by (simp add: getitem_def slice_len_full slice_start_def [of _ None])
qed

lemma getitem_at_out_of_range:
  assumes "shape a = n # ns" and "idx < - int n \<or> int n \<le> idx"
  shows "getitem a (At idx # ixs) = Inl IndexError"
  using assms by (auto simp: getitem_def)

lemma getitem_at_in_range:
  assumes "shape a = n # ns" and "- int n \<le> idx" and "idx < int n"
  shows "\<exists>r. getitem a [At idx] = Inr r"
  using assms by (simp add: getitem_def)

text \<open>
  Claim C8 fails: an index is taken as numpy takes it, and a negative index counts
  from the end. In the dataset of two samples \<open>idx = -1\<close> is outside \<open>[0, 2)\<close> and
  \<open>__getitem__\<close> returns the last sample.
\<close>

theorem Drive_getitem_negative_index:
  "Drive_len example_drive = Inr 2
   \<and> \<not> isl (fst (Drive_getitem example_drive (- 1)))
   \<and> map_option (\<lambda>a. elem a [0, 0, 0])
        (result_lookup (fst (Drive_getitem example_drive (- 1))) ''image'')
       = Some (elem (image_list example_drive) [1, 0, 0, 0])"
  by (simp add: Drive_len_def Drive_getitem_def example_drive_def marker_array_def
      getitem_def result_lookup_def slice_len_def slice_start_def slice_stop_def
      slice_norm_def)

text \<open>
  Claim C8, amended. Let the images and the labels of a dataset be arrays of four
  axes with the same number \<open>N\<close> of samples. \<open>__getitem__(idx)\<close> raises
  \<^verbatim>\<open>IndexError\<close> when \<open>idx < -N\<close> or \<open>idx \<ge> N\<close>. For \<open>-N \<le> idx < N\<close> it takes the
  sample at position \<open>idx mod N\<close> (\<open>idx\<close> itself, or \<open>idx + N\<close> for a negative \<open>idx\<close>):
  the image is the whole of that image, the label is the slice \<open>0:1\<close> of the channel
  axis of that label, and the result is this sample, or what the transform makes of
  it when one is configured. The dataset is left as it was.
\<close>

theorem Drive_getitem_index:
  assumes si: "shape (image_list self) = [n, c, h, w]"
    and sl: "shape (label_list self) = [n, cl, hl, wl]"
  shows "Drive_len self = Inr n
     \<and> snd (Drive_getitem self idx) = self
     \<and> (idx < - int n \<or> int n \<le> idx \<longrightarrow> fst (Drive_getitem self idx) = Inl IndexError)
     \<and> (- int n \<le> idx \<and> idx < int n \<longrightarrow>
          (\<exists>img lbl.
              shape img = [c, h, w]
            \<and> (\<forall>i j k. elem img [i, j, k]
                   = elem (image_list self) [nat (idx mod int n), i, j, k])
            \<and> shape lbl = [min 1 cl, hl, wl]
            \<and> (\<forall>i j k. elem lbl [i, j, k]
                   = elem (label_list self) [nat (idx mod int n), i, j, k])
            \<and> fst (Drive_getitem self idx) =
                (case transform self of
                   None \<Rightarrow> Inr [''image'' \<mapsto> img, ''label'' \<mapsto> lbl]
                 | Some t \<Rightarrow> t [''image'' \<mapsto> img, ''label'' \<mapsto> lbl])))"
proof (intro conjI impI)
  show "Drive_len self = Inr n" by (simp add: Drive_len_def si)
  show "snd (Drive_getitem self idx) = self" by (simp add: Drive_getitem_def)
next
  assume "idx < - int n \<or> int n \<le> idx"
  with si have "getitem (image_list self) [At idx] = Inl IndexError"
    by (intro getitem_at_out_of_range) auto
  then show "fst (Drive_getitem self idx) = Inl IndexError"
    by (simp add: Drive_getitem_def)
next
  assume r: "- int n \<le> idx \<and> idx < int n"
  then have lo: "- int n \<le> idx" and hi: "idx < int n" by blast+
  from getitem_at_in_range [OF si lo hi]
  obtain s0 where s0: "getitem (image_list self) [At idx] = Inr s0" by blast
  from getitem_at_full [OF si lo hi]
  obtain img where img:
    "getitem (image_list self) [At idx, Slice None None, Slice None None, Slice None None]
       = Inr img"
    "shape img = [c, h, w]"
    "\<forall>i j k. elem img [i, j, k] = elem (image_list self) [nat (idx mod int n), i, j, k]"
    by blast
  from getitem_at_first_channel [OF sl lo hi]
  obtain lbl where lbl:
    "getitem (label_list self)
       [At idx, Slice (Some 0) (Some 1), Slice None None, Slice None None] = Inr lbl"
    "shape lbl = [min 1 cl, hl, wl]"
    "\<forall>i j k. elem lbl [i, j, k] = elem (label_list self) [nat (idx mod int n), i, j, k]"
    by blast
  have "fst (Drive_getitem self idx) =
                (case transform self of
                   None \<Rightarrow> Inr [''image'' \<mapsto> img, ''label'' \<mapsto> lbl]
                 | Some t \<Rightarrow> t [''image'' \<mapsto> img, ''label'' \<mapsto> lbl])"
    using s0 img(1) lbl(1) by (simp add: Drive_getitem_def Let_def)
  with img(2,3) lbl(2,3)
  show "\<exists>img lbl.
              shape img = [c, h, w]
            \<and> (\<forall>i j k. elem img [i, j, k]
                   = elem (image_list self) [nat (idx mod int n), i, j, k])
            \<and> shape lbl = [min 1 cl, hl, wl]
            \<and> (\<forall>i j k. elem lbl [i, j, k]
                   = elem (label_list self) [nat (idx mod int n), i, j, k])
            \<and> fst (Drive_getitem self idx) =
                (case transform self of
                   None \<Rightarrow> Inr [''image'' \<mapsto> img, ''label'' \<mapsto> lbl]
                 | Some t \<Rightarrow> t [''image'' \<mapsto> img, ''label'' \<mapsto> lbl])"
    by blast
qed

text \<open>
  In the dataset of two samples \<open>idx = 2\<close> raises, and \<open>idx = -1\<close> gives the sample
  at position 1 with one label channel.
\<close>

theorem Drive_getitem_index_witness:
  "shape (image_list example_drive) = [2, 1, 2, 2]
   \<and> shape (label_list example_drive) = [2, 2, 2, 2]
   \<and> int 2 \<le> 2 \<and> fst (Drive_getitem example_drive 2) = Inl IndexError
   \<and> - int 2 \<le> - 1 \<and> (- 1 :: int) < int 2
   \<and> snd (Drive_getitem example_drive (- 1)) = example_drive
   \<and> (\<exists>img lbl. fst (Drive_getitem example_drive (- 1))
           = Inr [''image'' \<mapsto> img, ''label'' \<mapsto> lbl]
         \<and> shape img = [1, 2, 2] \<and> shape lbl = [1, 2, 2]
         \<and> elem lbl [0, 1, 1] = elem (label_list example_drive) [1, 0, 1, 1])"
proof -
  have s: "shape (image_list example_drive) = [2, 1, 2, 2]"
    "shape (label_list example_drive) = [2, 2, 2, 2]"
    by (simp_all add: example_drive_def marker_array_def)
  have t: "transform example_drive = None" by (simp add: example_drive_def)
  have f: "fst (Drive_getitem example_drive 2) = Inl IndexError"
    using Drive_getitem_index [OF s, of 2] by simp
  have u: "snd (Drive_getitem example_drive (- 1)) = example_drive"
    using Drive_getitem_index [OF s, of "- 1"] by simp
  have m: "nat (- 1 mod int 2) = 1" by simp
  from Drive_getitem_index [OF s, of "- 1"]
  obtain img lbl where g: "shape img = [1, 2, 2]" "shape lbl = [min 1 2, 2, 2]"
    "\<forall>i j k. elem lbl [i, j, k] = elem (label_list example_drive) [nat (- 1 mod int 2), i, j, k]"
    "fst (Drive_getitem example_drive (- 1)) =
                (case transform example_drive of
                   None \<Rightarrow> Inr [''image'' \<mapsto> img, ''label'' \<mapsto> lbl]
                 | Some t \<Rightarrow> t [''image'' \<mapsto> img, ''label'' \<mapsto> lbl])"
    by auto
  have "fst (Drive_getitem example_drive (- 1)) = Inr [''image'' \<mapsto> img, ''label'' \<mapsto> lbl]"
    using g(4) t by simp
  moreover have "shape lbl = [1, 2, 2]" using g(2) by simp
  moreover have "elem lbl [0, 1, 1] = elem (label_list example_drive) [1, 0, 1, 1]"
    using g(3) [rule_format, of 0 1 1] unfolding m by simp
  ultimately show ?thesis using s f u g(1) by auto
qed

end
